theory Spec2Isabelle
  imports Main "HOL-Library.Sublist" "HOL-Library.AList" "HOL-Library.Word"
begin

section \<open>JavaScript values used by both modules\<close>

text \<open>
  Exceptions are values. \<open>Error\<close> is \<^verbatim>\<open>new Error(msg)\<close>; \<open>TypeError\<close> is the
  engine's own exception (calling something that is not a function, reading a property
  of \<^verbatim>\<open>undefined\<close> or \<^verbatim>\<open>null\<close>). Both carry their \<^verbatim>\<open>message\<close>; \<open>errorName\<close> is the
  \<^verbatim>\<open>name\<close> of the exception's class. The two modules define no error class of their
  own, so these are all the exceptions they raise.
\<close>

datatype error = Error string | TypeError string

fun message :: "error \<Rightarrow> string" where
  "message (Error m) = m"
| "message (TypeError m) = m"

fun message_update :: "string \<Rightarrow> error \<Rightarrow> error" where
  "message_update m (Error _) = Error m"
| "message_update m (TypeError _) = TypeError m"

fun errorName :: "error \<Rightarrow> string" where
  "errorName (Error _) = ''Error''"
| "errorName (TypeError _) = ''TypeError''"

text \<open>
  An argument that should be an object but may be \<^verbatim>\<open>undefined\<close> or \<^verbatim>\<open>null\<close>: the code
  tells the two apart (\<^verbatim>\<open>=== undefined\<close>), and reading a property of either raises.
\<close>

datatype 'a nullable = Undefined | Null | Obj 'a

text \<open>
  Truthiness of a value that is a string or \<^verbatim>\<open>undefined\<close> (\<open>None\<close>): only a
  non-empty string is truthy.
\<close>

definition truthy :: "string option \<Rightarrow> bool" where
  "truthy s = (case s of None \<Rightarrow> False | Some t \<Rightarrow> t \<noteq> [])"

text \<open>\<^verbatim>\<open>target.startsWith(prefix)\<close> on strings as character sequences.\<close>

definition startsWith :: "string \<Rightarrow> string \<Rightarrow> bool" where
  "startsWith target p = (take (length p) target = p)"

section \<open>cascaded-context.js\<close>

subsection \<open>Traversal paths\<close>

text \<open>
  A path node is \<^verbatim>\<open>{key, prev}\<close>. The key of a GraphQL path is a field name or a list
  index; nothing in the code checks it, so it may also be \<^verbatim>\<open>undefined\<close>. A list index
  is an array index, an unsigned 32-bit integer, and \<^verbatim>\<open>String(...)\<close> of such a number is
  its decimal numeral (numbers that are not array indices are not modelled).
  A falsy \<^verbatim>\<open>prev\<close> (\<^verbatim>\<open>undefined\<close> or \<^verbatim>\<open>null\<close>) is \<open>None\<close>.
\<close>

datatype jskey = KeyUndefined | KeyString string | KeyNumber "32 word"

datatype path = Path (key: jskey) (prev: "path option")

fun decimal :: "nat \<Rightarrow> string" where
  "decimal n =
     (if n < 10 then [''0123456789'' ! n]
      else decimal (n div 10) @ [''0123456789'' ! (n mod 10)])"

declare decimal.simps [simp del]

text \<open>\<^verbatim>\<open>String(path.key)\<close>; the template literal renders a key the same way.\<close>

fun toString :: "jskey \<Rightarrow> string" where
  "toString KeyUndefined = ''undefined''"
| "toString (KeyString s) = s"
| "toString (KeyNumber n) = decimal (unat n)"

text \<open>
  \<^verbatim>\<open>getPath(path, currentPath)\<close>. The first argument is what the caller passes: only
  \<^verbatim>\<open>undefined\<close> meets the guard, and \<^verbatim>\<open>null\<close> goes on to \<^verbatim>\<open>path.key\<close>, which raises.
  \<open>currentPath\<close> is \<open>None\<close> when the argument is left out.
\<close>

function getPath :: "path nullable \<Rightarrow> string option \<Rightarrow> error + string" where
  "getPath Undefined currentPath = Inl (Error ''path was undefined'')"
| "getPath Null currentPath = Inl (TypeError ''Cannot read properties of null (reading 'key')'')"
| "getPath (Obj (Path k pr)) currentPath =
     (let newPath = (if truthy currentPath then toString k @ '':'' @ the currentPath
                     else toString k)
      in case pr of
           None \<Rightarrow> Inr newPath
         | Some p \<Rightarrow> getPath (Obj p) (Some newPath))"
  by pat_completeness auto
termination
  by (relation "measure (\<lambda>(p, c). case p of Obj q \<Rightarrow> size q | _ \<Rightarrow> 0)") auto

subsection \<open>Longest prefix\<close>

text \<open>
  The \<^verbatim>\<open>for ... of\<close> loop of \<^verbatim>\<open>findLongestPrefix\<close>, with its two variables
  \<open>(match, matchLength)\<close> as the loop state; \<open>match\<close> starts \<^verbatim>\<open>undefined\<close>.
\<close>

fun findLongestPrefix_loop ::
  "string \<Rightarrow> string list \<Rightarrow> string option \<times> nat \<Rightarrow> string option \<times> nat" where
  "findLongestPrefix_loop target [] (match, matchLength) = (match, matchLength)"
| "findLongestPrefix_loop target (p # rest) (match, matchLength) =
     findLongestPrefix_loop target rest
       (if startsWith target p then
          (if length p > matchLength then (Some p, length p) else (match, matchLength))
        else (match, matchLength))"

definition findLongestPrefix :: "string \<Rightarrow> string list \<Rightarrow> string option" where
  "findLongestPrefix target ps = fst (findLongestPrefix_loop target ps (None, 0))"

subsection \<open>The class CascadedContext\<close>

text \<open>
  \<open>cascadeMap\<close> is a JavaScript \<^verbatim>\<open>Map\<close>: an association list in insertion order, where
  \<^verbatim>\<open>Map.set\<close> replaces the value of a present key in place and appends a new key.
  \<open>defaultValue\<close> is read from the object; no code of the class assigns it, so it may
  be \<^verbatim>\<open>undefined\<close> (\<open>None\<close>). \<^verbatim>\<open>Map.get\<close> likewise returns a value or \<^verbatim>\<open>undefined\<close>.
  The argument \<^verbatim>\<open>info\<close> of \<open>set\<close> and \<open>get\<close> is what the caller passes; \<open>infoPath\<close> is
  \<^verbatim>\<open>info.path\<close>, which raises when \<^verbatim>\<open>info\<close> is \<^verbatim>\<open>undefined\<close> or \<^verbatim>\<open>null\<close>.
\<close>

record 'v CascadedContext =
  cascadeMap :: "(string \<times> 'v) list"
  defaultValue :: "'v option"

record info =
  path :: "path nullable"

definition infoPath :: "info nullable \<Rightarrow> error + path nullable" where
  "infoPath i =
     (case i of
        Undefined \<Rightarrow> Inl (TypeError ''Cannot read properties of undefined (reading 'path')'')
      | Null \<Rightarrow> Inl (TypeError ''Cannot read properties of null (reading 'path')'')
      | Obj r \<Rightarrow> Inr (path r))"

definition set_cc ::
  "info nullable \<Rightarrow> 'v \<Rightarrow> 'v CascadedContext \<Rightarrow> error + 'v CascadedContext" where
  "set_cc i v this =
     (case infoPath i of
        Inl e \<Rightarrow> Inl e
      | Inr h \<Rightarrow>
          (case getPath h None of
             Inl e \<Rightarrow> Inl e
           | Inr p \<Rightarrow> Inr (this\<lparr>cascadeMap := AList.update p v (cascadeMap this)\<rparr>)))"

definition get_cc :: "info nullable \<Rightarrow> 'v CascadedContext \<Rightarrow> error + 'v option" where
  "get_cc i this =
     (case infoPath i of
        Inl e \<Rightarrow> Inl e
      | Inr h \<Rightarrow>
          (case getPath h None of
             Inl e \<Rightarrow> Inl e
           | Inr p \<Rightarrow>
               (let cascadeKeys = map fst (cascadeMap this);
                    lastCascade = findLongestPrefix p cascadeKeys
                in if truthy lastCascade then Inr (map_of (cascadeMap this) (the lastCascade))
                   else Inr (defaultValue this))))"

definition has_cc :: "'v \<Rightarrow> 'v CascadedContext \<Rightarrow> bool" where
  "has_cc v this = (v \<in> set (map snd (cascadeMap this)))"

subsection \<open>Notions the statements use\<close>

text \<open>
  The nodes of a chain from a node up to the root, the node itself first; its keys in
  the same order; and joining segments with a colon.
\<close>

fun chain :: "path \<Rightarrow> path list" where
  "chain (Path k None) = [Path k None]"
| "chain (Path k (Some p)) = Path k (Some p) # chain p"

definition chainKeys :: "path \<Rightarrow> jskey list" where
  "chainKeys p = map key (chain p)"

fun joinColon :: "string list \<Rightarrow> string" where
  "joinColon [] = []"
| "joinColon [s] = s"
| "joinColon (s # t # ss) = s @ '':'' @ joinColon (t # ss)"

text \<open>\<open>a\<close> is \<open>b\<close> or an ancestor of \<open>b\<close>: it lies on the chain from \<open>b\<close> to the root.\<close>

definition ancestorOrSelf :: "path \<Rightarrow> path \<Rightarrow> bool" where
  "ancestorOrSelf a b = (a \<in> set (chain b))"

section \<open>Schema generation\<close>

subsection \<open>Content model\<close>

text \<open>
  A validation is an opaque object of which only \<^verbatim>\<open>linkContentType\<close> is read: absent
  (\<open>None\<close>), one content type name, or an array of names.
\<close>

datatype stringOrArray = OneName string | Names "string list"

record validation =
  linkContentType :: "stringOrArray option"

text \<open>
  A field definition \<^verbatim>\<open>{id, type, required, disabled, omitted, items, linkType,
  validations}\<close>. The selectors of \<^verbatim>\<open>id\<close> and \<^verbatim>\<open>type\<close> are named \<open>fieldId\<close> and
  \<open>fieldType\<close>. Properties that may be absent are options (the \<^verbatim>\<open>items\<close> of an array
  are a field definition with no \<^verbatim>\<open>id\<close>); an absent flag is \<open>False\<close>.
\<close>

datatype field =
  Field (fieldId: "string option") (fieldType: string) (required: bool) (disabled: bool)
    (omitted: bool) (items: "field option") (linkType: "string option")
    (validations: "validation list option")

text \<open>A string or \<^verbatim>\<open>undefined\<close> inside a template literal.\<close>

definition template :: "string option \<Rightarrow> string" where
  "template v = (case v of None \<Rightarrow> ''undefined'' | Some s \<Rightarrow> s)"

subsection \<open>Type descriptors and the host's type registry\<close>

text \<open>
  A descriptor is \<^verbatim>\<open>{type, extensions}\<close> (\<open>dtype\<close> is its \<^verbatim>\<open>type\<close>); \<^verbatim>\<open>extensions\<close>
  maps an extension name to an object of string properties.
\<close>

type_synonym extensions = "(string \<times> (string \<times> string) list) list"

record descriptor =
  dtype :: string
  extensions :: "extensions option"

text \<open>
  What \<^verbatim>\<open>createTypes\<close> receives: type definitions in the schema language (kept by their
  head line), the result of \<^verbatim>\<open>schema.buildUnionType({name, types})\<close>, and the result
  of \<^verbatim>\<open>schema.buildObjectType({name, fields, interfaces, extensions})\<close> (resolvers
  left out). Both are the host's; \<^verbatim>\<open>createTypes\<close> is modelled as appending its argument
  to the list \<open>created\<close>. The module's \<^verbatim>\<open>unionsNameSet\<close> is the other part of the
  state; a JavaScript \<^verbatim>\<open>Set\<close> keeps insertion order.
\<close>

datatype typeDef =
  TypeDefs string
| UnionType string "string list"
| ObjectType string "(string \<times> descriptor) list" "string list" "extensions option"

record state =
  unionsNameSet :: "string list"
  created :: "typeDef list"

definition createTypes :: "typeDef \<Rightarrow> state \<Rightarrow> state" where
  "createTypes t st = st\<lparr>created := created st @ [t]\<rparr>"

text \<open>
  Modelled from the spec: \<^verbatim>\<open>makeTypeName\<close> is imported from \<^verbatim>\<open>./normalize\<close>, which is
  not among the sources; the spec says only that it gives the full translated name of
  a content type and, with the empty prefix, a shorter variant. The translator below
  takes it as a parameter (both arguments may be \<^verbatim>\<open>undefined\<close>). This instance, the
  prefix followed by the name, is used where a closed example needs one.
\<close>

definition makeTypeName_sample :: "string option \<Rightarrow> string option \<Rightarrow> string" where
  "makeTypeName_sample t typePrefix =
     (case typePrefix of None \<Rightarrow> ''Contentful'' | Some p \<Rightarrow> p) @ template t"

subsection \<open>The primitive table\<close>

definition linkExtension :: "field \<Rightarrow> extensions option" where
  "linkExtension f =
     Some [(''link'', [(''by'', ''id''), (''from'', template (fieldId f) @ ''___NODE'')])]"

definition ContentfulDataTypes :: "(string \<times> (field \<Rightarrow> descriptor)) list" where
  "ContentfulDataTypes =
     [(''Symbol'', \<lambda>_. \<lparr>dtype = ''String'', extensions = None\<rparr>),
      (''Text'', \<lambda>f. \<lparr>dtype = ''ContentfulNodeTypeText'', extensions = linkExtension f\<rparr>),
      (''Integer'', \<lambda>_. \<lparr>dtype = ''Int'', extensions = None\<rparr>),
      (''Number'', \<lambda>_. \<lparr>dtype = ''Float'', extensions = None\<rparr>),
      (''Date'', \<lambda>_. \<lparr>dtype = ''Date'', extensions = Some [(''dateformat'', [])]\<rparr>),
      (''Object'', \<lambda>_. \<lparr>dtype = ''JSON'', extensions = None\<rparr>),
      (''Boolean'', \<lambda>_. \<lparr>dtype = ''Boolean'', extensions = None\<rparr>),
      (''Location'', \<lambda>_. \<lparr>dtype = ''ContentfulNodeTypeLocation'', extensions = None\<rparr>),
      (''RichText'', \<lambda>_. \<lparr>dtype = ''ContentfulNodeTypeRichText'', extensions = None\<rparr>)]"

subsection \<open>Link fields\<close>

text \<open>
  The first part of \<^verbatim>\<open>getLinkFieldType\<close>: the validations are read from
  \<^verbatim>\<open>field?.items?.validations\<close>, the first one with a truthy \<^verbatim>\<open>linkContentType\<close> is
  taken (an array is truthy, a string when it is not empty), and its value is made an
  array. \<open>None\<close> is every way of reaching the function's last \<^verbatim>\<open>return\<close>.
\<close>

definition linkContentTypeTruthy :: "validation \<Rightarrow> bool" where
  "linkContentTypeTruthy v =
     (case linkContentType v of None \<Rightarrow> False | Some (OneName s) \<Rightarrow> s \<noteq> [] | Some (Names _) \<Rightarrow> True)"

definition contentTypesOf :: "field \<Rightarrow> string list option" where
  "contentTypesOf f =
     (case (case items f of None \<Rightarrow> None | Some it \<Rightarrow> validations it) of
        None \<Rightarrow> None
      | Some vs \<Rightarrow>
          (case find linkContentTypeTruthy vs of
             None \<Rightarrow> None
           | Some linkContentTypeValidation \<Rightarrow>
               (case linkContentType linkContentTypeValidation of
                  None \<Rightarrow> None
                | Some (OneName s) \<Rightarrow> Some [s]
                | Some (Names ns) \<Rightarrow> Some ns)))"

definition getLinkFieldType ::
  "(string option \<Rightarrow> string option \<Rightarrow> string) \<Rightarrow> string option \<Rightarrow> field \<Rightarrow> state
     \<Rightarrow> descriptor \<times> state" where
  "getLinkFieldType makeTypeName lt f st =
     (case contentTypesOf f of
        Some contentTypes \<Rightarrow>
          (let translatedTypeNames = map (\<lambda>typeName. makeTypeName (Some typeName) None) contentTypes;
               shortTypeNames = map (\<lambda>typeName. makeTypeName (Some typeName) (Some [])) contentTypes
           in case translatedTypeNames of
                [single] \<Rightarrow> (\<lparr>dtype = single, extensions = linkExtension f\<rparr>, st)
              | _ \<Rightarrow>
                  (let unionName = concat (''UnionContentful'' # shortTypeNames)
                   in (\<lparr>dtype = unionName, extensions = linkExtension f\<rparr>,
                       if unionName \<in> set (unionsNameSet st) then st
                       else createTypes (UnionType unionName translatedTypeNames)
                              (st\<lparr>unionsNameSet := unionsNameSet st @ [unionName]\<rparr>))))
      | None \<Rightarrow> (\<lparr>dtype = ''Contentful'' @ template lt, extensions = linkExtension f\<rparr>, st))"

subsection \<open>Fields\<close>

text \<open>
  \<^verbatim>\<open>translateFieldType\<close>. Reading \<^verbatim>\<open>field.items.type\<close> when an array has no \<^verbatim>\<open>items\<close>,
  and calling the \<^verbatim>\<open>undefined\<close> that the table returns for a kind it does not hold,
  raise the engine's \<^verbatim>\<open>TypeError\<close>.
\<close>

function translateFieldType ::
  "(string option \<Rightarrow> string option \<Rightarrow> string) \<Rightarrow> field \<Rightarrow> state
     \<Rightarrow> (error + descriptor) \<times> state" where
  "translateFieldType makeTypeName f st =
     (case
        (if fieldType f = ''Array'' then
           (case items f of
              None \<Rightarrow> (Inl (TypeError ''Cannot read properties of undefined (reading 'type')''), st)
            | Some it \<Rightarrow>
                (case (if fieldType it = ''Link''
                       then (case getLinkFieldType makeTypeName (linkType it) f st of
                               (d, st') \<Rightarrow> (Inr d, st'))
                       else translateFieldType makeTypeName it st) of
                   (Inl e, st') \<Rightarrow> (Inl e, st')
                 | (Inr fieldData, st') \<Rightarrow>
                     (Inr (fieldData\<lparr>dtype := ''['' @ dtype fieldData @ '']''\<rparr>), st')))
         else if fieldType f = ''Link'' then
           (case getLinkFieldType makeTypeName (linkType f) f st of (d, st') \<Rightarrow> (Inr d, st'))
         else
           (case map_of ContentfulDataTypes (fieldType f) of
              None \<Rightarrow> (Inl (TypeError ''ContentfulDataTypes.get(...) is not a function''), st)
            | Some handler \<Rightarrow> (Inr (handler f), st))) of
        (Inl e, st') \<Rightarrow> (Inl e, st')
      | (Inr fieldType', st') \<Rightarrow>
          (Inr (if required f then fieldType'\<lparr>dtype := dtype fieldType' @ ''!''\<rparr> else fieldType'),
           st'))"
  by pat_completeness auto
termination
  by (relation "measure (\<lambda>(m, f, st). size f)") (auto, case_tac f, auto)

subsection \<open>Content types\<close>

text \<open>
  A content type \<^verbatim>\<open>{sys: {id}, name, fields}\<close>; \<open>sys_id\<close> is \<^verbatim>\<open>sys.id\<close>.
\<close>

datatype contentTypeItem =
  ContentTypeItem (sys_id: string) (name: "string option") (fields: "field list")

text \<open>
  A plain object as the list of its own properties. \<open>assign\<close> is \<^verbatim>\<open>obj[k] = v\<close> with
  \<open>v\<close> an object: assigning to a present property replaces its value, assigning to a
  new one adds it, and assigning to \<^verbatim>\<open>__proto__\<close> calls the setter inherited from
  \<^verbatim>\<open>Object.prototype\<close>, which changes the prototype and makes no own property.
  \<open>spread\<close> is \<^verbatim>\<open>{...base, ...fields}\<close>: it defines each own property of \<^verbatim>\<open>fields\<close> on
  the new object. (That engines list integer-like property names first is not
  modelled.)
\<close>

definition assign ::
  "string \<Rightarrow> descriptor \<Rightarrow> (string \<times> descriptor) list \<Rightarrow> (string \<times> descriptor) list" where
  "assign k v obj = (if k = ''__proto__'' then obj else AList.update k v obj)"

definition spread ::
  "(string \<times> descriptor) list \<Rightarrow> (string \<times> descriptor) list \<Rightarrow> (string \<times> descriptor) list" where
  "spread base fs = foldl (\<lambda>obj (k, v). AList.update k v obj) base fs"

text \<open>The \<^verbatim>\<open>forEach\<close> over a content type's fields, filling the object \<^verbatim>\<open>fields\<close>.\<close>

fun translateFields ::
  "(string option \<Rightarrow> string option \<Rightarrow> string) \<Rightarrow> field list \<Rightarrow> (string \<times> descriptor) list
     \<Rightarrow> state \<Rightarrow> (error + (string \<times> descriptor) list) \<times> state" where
  "translateFields makeTypeName [] fs st = (Inr fs, st)"
| "translateFields makeTypeName (f # rest) fs st =
     (if disabled f \<or> omitted f then translateFields makeTypeName rest fs st
      else
        (case translateFieldType makeTypeName f st of
           (Inl e, st') \<Rightarrow> (Inl e, st')
         | (Inr d, st') \<Rightarrow>
             translateFields makeTypeName rest (assign (template (fieldId f)) d fs) st'))"

text \<open>
  The body of the \<^verbatim>\<open>try\<close> for one content type; \<open>useNameForId\<close> is the truthiness of
  \<^verbatim>\<open>pluginConfig.get(`useNameForId`)\<close>.
\<close>

definition contentTypeSchema ::
  "(string option \<Rightarrow> string option \<Rightarrow> string) \<Rightarrow> bool \<Rightarrow> contentTypeItem \<Rightarrow> state
     \<Rightarrow> (error + unit) \<times> state" where
  "contentTypeSchema makeTypeName useNameForId contentTypeItem st =
     (case translateFields makeTypeName (fields contentTypeItem) [] st of
        (Inl e, st') \<Rightarrow> (Inl e, st')
      | (Inr fs, st') \<Rightarrow>
          (let type = (if useNameForId then name contentTypeItem
                       else Some (sys_id contentTypeItem))
           in (Inr (),
               createTypes
                 (ObjectType (makeTypeName type None)
                    (spread [(''id'', \<lparr>dtype = ''ID!'', extensions = None\<rparr>),
                             (''sys'', \<lparr>dtype = ''ContentfulInternalSys'', extensions = None\<rparr>)] fs)
                    [''ContentfulInternalReference'', ''ContentfulEntry'', ''Node'']
                    (Some [(''dontInfer'', [])]))
                 st')))"

text \<open>
  The loop over the content types with its \<^verbatim>\<open>catch\<close>: the message of the caught error
  is rewritten and the error thrown again, which ends the loop. (The \<^verbatim>\<open>console.log\<close>
  is left out.)
\<close>

definition annotate :: "contentTypeItem \<Rightarrow> error \<Rightarrow> error" where
  "annotate contentTypeItem err =
     message_update
       (''Unable to create schema for Contentful Content Type ''
          @ (if truthy (name contentTypeItem) then the (name contentTypeItem)
             else sys_id contentTypeItem)
          @ '':'' @ [CHR 0x0A] @ message err)
       err"

fun contentTypes ::
  "(string option \<Rightarrow> string option \<Rightarrow> string) \<Rightarrow> bool \<Rightarrow> contentTypeItem list \<Rightarrow> state
     \<Rightarrow> (error + unit) \<times> state" where
  "contentTypes makeTypeName useNameForId [] st = (Inr (), st)"
| "contentTypes makeTypeName useNameForId (contentTypeItem # rest) st =
     (case contentTypeSchema makeTypeName useNameForId contentTypeItem st of
        (Inl err, st') \<Rightarrow> (Inl (annotate contentTypeItem err), st')
      | (Inr _, st') \<Rightarrow> contentTypes makeTypeName useNameForId rest st')"

text \<open>The types \<^verbatim>\<open>generateSchema\<close> declares before it reaches the content types.\<close>

definition plain :: "string \<Rightarrow> descriptor" where
  "plain t = \<lparr>dtype = t, extensions = None\<rparr>"

definition genericTypes :: "typeDef list" where
  "genericTypes =
     [TypeDefs ''interface ContentfulInternalReference implements Node'',
      TypeDefs ''type ContentfulContentType implements Node'',
      TypeDefs ''type ContentfulInternalSys @dontInfer'',
      TypeDefs ''interface ContentfulEntry implements Node @dontInfer'',
      TypeDefs ''type ContentfulAsset implements ContentfulInternalReference & Node'',
      ObjectType ''ContentfulNodeTypeRichTextAssets''
        [(''block'', plain ''[ContentfulAsset]!''), (''hyperlink'', plain ''[ContentfulAsset]!'')]
        [] None,
      ObjectType ''ContentfulNodeTypeRichTextEntries''
        [(''inline'', plain ''[ContentfulEntry]!''), (''block'', plain ''[ContentfulEntry]!''),
         (''hyperlink'', plain ''[ContentfulEntry]!'')]
        [] None,
      ObjectType ''ContentfulNodeTypeRichTextLinks''
        [(''assets'', plain ''ContentfulNodeTypeRichTextAssets''),
         (''entries'', plain ''ContentfulNodeTypeRichTextEntries'')]
        [] None,
      ObjectType ''ContentfulNodeTypeRichText''
        [(''json'', plain ''JSON''), (''links'', plain ''ContentfulNodeTypeRichTextLinks'')]
        [] (Some [(''dontInfer'', [])]),
      ObjectType ''ContentfulNodeTypeLocation''
        [(''lat'', plain ''Float!''), (''lon'', plain ''Float!'')]
        [] (Some [(''dontInfer'', [])]),
      ObjectType ''ContentfulNodeTypeText''
        [(''raw'', plain ''String!'')]
        [''Node''] (Some [(''dontInfer'', [])])]"

definition generateSchema ::
  "(string option \<Rightarrow> string option \<Rightarrow> string) \<Rightarrow> bool \<Rightarrow> contentTypeItem list \<Rightarrow> state
     \<Rightarrow> (error + unit) \<times> state" where
  "generateSchema makeTypeName useNameForId contentTypeItems st =
     contentTypes makeTypeName useNameForId contentTypeItems
       (foldl (\<lambda>s t. createTypes t s) st genericTypes)"

subsection \<open>Notions the statements use\<close>

text \<open>
  A field the schema builder does not skip; a descriptor's type expression wrapped in
  a list and then marked required or not; a descriptor marked required or not; the
  names of the unions declared so far; and the state in which every registered union
  name has been declared, once.
\<close>

definition enabled :: "field \<Rightarrow> bool" where
  "enabled f = (\<not> disabled f \<and> \<not> omitted f)"

definition arrayOf :: "bool \<Rightarrow> descriptor \<Rightarrow> descriptor" where
  "arrayOf r d = d\<lparr>dtype := ''['' @ dtype d @ '']'' @ (if r then ''!'' else [])\<rparr>"

definition mark :: "bool \<Rightarrow> descriptor \<Rightarrow> descriptor" where
  "mark r d = (if r then d\<lparr>dtype := dtype d @ ''!''\<rparr> else d)"

fun unionNames :: "typeDef list \<Rightarrow> string list" where
  "unionNames [] = []"
| "unionNames (UnionType n ts # rest) = n # unionNames rest"
| "unionNames (_ # rest) = unionNames rest"

definition unionsDeclaredOnce :: "state \<Rightarrow> bool" where
  "unionsDeclaredOnce st =
     (distinct (unionNames (created st)) \<and> set (unionNames (created st)) = set (unionsNameSet st))"

section \<open>Path computation\<close>

lemma startsWith_prefix: "startsWith target p = prefix p target"
  by (auto simp: startsWith_def prefix_def take_is_prefix) (metis append_eq_conv_conj)

lemma decimal_nonempty: "decimal n \<noteq> []"
  by (subst decimal.simps) simp

lemma joinColon_snoc_merge: "joinColon (xs @ [a @ '':'' @ b]) = joinColon (xs @ [a, b])"
  by (induction xs rule: joinColon.induct) auto

lemma getPath_acc:
  "s \<noteq> [] \<Longrightarrow> getPath (Obj p) (Some s) = Inr (joinColon (rev (map toString (chainKeys p)) @ [s]))"
proof (induction p arbitrary: s rule: chain.induct)
  case (1 k)
  then show ?case by (simp add: chainKeys_def truthy_def)
next
  case (2 k p)
  have "getPath (Obj (Path k (Some p))) (Some s) = getPath (Obj p) (Some (toString k @ '':'' @ s))"
    using 2(2) by (simp add: truthy_def)
  also have "\<dots> = Inr (joinColon (rev (map toString (chainKeys p)) @ [toString k @ '':'' @ s]))"
    by (rule 2(1)) simp
  finally show ?case
    using joinColon_snoc_merge [of "rev (map toString (chainKeys p))" "toString k" s]
    by (simp add: chainKeys_def)
qed

lemma getPath_nonempty_leaf:
  assumes "toString (key p) \<noteq> []"
  shows "getPath (Obj p) None = Inr (joinColon (rev (map toString (chainKeys p))))"
proof (cases p rule: chain.cases)
  case (1 k)
  then show ?thesis by (simp add: chainKeys_def truthy_def)
next
  case (2 k q)
  then show ?thesis using assms getPath_acc [of "toString k" q]
    by (simp add: chainKeys_def truthy_def)
qed

lemma getPath_node:
  "\<exists>s. getPath (Obj p) c = Inr s"
proof (induction p arbitrary: c rule: chain.induct)
  case (1 k)
  then show ?case by (simp add: Let_def)
next
  case (2 k p)
  then show ?case by (simp add: Let_def)
qed

lemma getPath_fails_iff:
  "(getPath h c = Inl e) =
     (h = Undefined \<and> e = Error ''path was undefined''
      \<or> h = Null \<and> e = TypeError ''Cannot read properties of null (reading 'key')'')"
proof (cases h)
  case Undefined
  then show ?thesis by auto
next
  case Null
  then show ?thesis by auto
next
  case (Obj p)
  then show ?thesis using getPath_node [of p c] by auto
qed

text \<open>
  The empty path comes only from a leaf key that renders as the empty string, so \<open>set\<close>
  on other nodes keeps the empty path out of the map.
\<close>

lemma joinColon_snoc_nonempty: "s \<noteq> [] \<Longrightarrow> joinColon (xs @ [s]) \<noteq> []"
  by (induction xs rule: joinColon.induct) auto

lemma getPath_empty_leaf:
  assumes "getPath (Obj p) None = Inr []"
  shows "toString (key p) = []"
proof (rule ccontr)
  assume n: "toString (key p) \<noteq> []"
  have "chainKeys p = key p # tl (chainKeys p)"
    by (cases p rule: chain.cases) (simp_all add: chainKeys_def)
  then have "rev (map toString (chainKeys p))
      = rev (map toString (tl (chainKeys p))) @ [toString (key p)]"
    by (metis list.simps(9) rev.simps(2))
  then have "joinColon (rev (map toString (chainKeys p))) \<noteq> []"
    using joinColon_snoc_nonempty [OF n] by simp
  then show False
    using assms getPath_nonempty_leaf [OF n] by simp
qed

lemma set_cc_keeps_keys_nonempty:
  assumes "[] \<notin> fst ` set (cascadeMap this)"
    and "toString (key p) \<noteq> []"
    and "set_cc (Obj \<lparr>path = Obj p\<rparr>) v this = Inr this'"
  shows "[] \<notin> fst ` set (cascadeMap this')"
proof -
  obtain s where s: "getPath (Obj p) None = Inr s"
    using getPath_node by blast
  have "s \<noteq> []"
    using s getPath_empty_leaf [of p] assms(2) by auto
  moreover have "cascadeMap this' = AList.update s v (cascadeMap this)"
    using assms(3) s by (auto simp: set_cc_def infoPath_def)
  ultimately show ?thesis
    using assms(1) by (simp add: dom_update)
qed

lemma findLongestPrefix_loop_result:
  "findLongestPrefix_loop target ps (m, n) = (m', n') \<Longrightarrow>
   (case m of None \<Rightarrow> n = 0 | Some k \<Rightarrow> n = length k \<and> k \<noteq> [] \<and> prefix k target) \<Longrightarrow>
   (case m' of
      None \<Rightarrow> m = None \<and> (\<forall>p\<in>set ps. prefix p target \<longrightarrow> p = [])
    | Some k \<Rightarrow> k \<noteq> [] \<and> prefix k target \<and> n \<le> length k \<and> (m = Some k \<or> k \<in> set ps) \<and>
                (\<forall>p\<in>set ps. prefix p target \<longrightarrow> length p \<le> length k))"
proof (induction ps arbitrary: m n)
  case Nil
  then show ?case by (auto split: option.splits)
next
  case (Cons p ps)
  show ?case
  proof (cases "startsWith target p \<and> length p > n")
    case True
    then have "findLongestPrefix_loop target ps (Some p, length p) = (m', n')"
      using Cons.prems(1) by simp
    moreover have "p \<noteq> [] \<and> prefix p target"
      using True by (auto simp: startsWith_prefix)
    ultimately have "case m' of
        None \<Rightarrow> Some p = None \<and> (\<forall>q\<in>set ps. prefix q target \<longrightarrow> q = [])
      | Some k \<Rightarrow> k \<noteq> [] \<and> prefix k target \<and> length p \<le> length k \<and> (Some p = Some k \<or> k \<in> set ps) \<and>
                (\<forall>q\<in>set ps. prefix q target \<longrightarrow> length q \<le> length k)"
      using Cons.IH [of "Some p" "length p"] by simp
    then show ?thesis using True
      by (auto split: option.splits)
  next
    case False
    then have "findLongestPrefix_loop target ps (m, n) = (m', n')"
      using Cons.prems(1) by (auto split: if_splits)
    from Cons.IH [OF this Cons.prems(2)] False show ?thesis
      using Cons.prems(2) by (auto simp: startsWith_prefix split: option.splits)
  qed
qed

section \<open>Claims about the cascaded context\<close>

text \<open>
  C3, as amended. The claim reads the path leaf key first; the code prepends each
  ancestor, so the root's key is leftmost. For every chain whose own (leaf) key renders
  as a non-empty string, \<open>getPath\<close> returns the keys of the chain joined with colons,
  root key first and leaf key last.
\<close>

theorem getPath_root_first:
  assumes "toString (key p) \<noteq> []"
  shows "getPath (Obj p) None = Inr (joinColon (rev (map toString (chainKeys p))))"
  using assms by (rule getPath_nonempty_leaf)

theorem getPath_root_first_witness:
  "toString (key (Path (KeyNumber 12) (Some (Path (KeyString ''items'')
      (Some (Path (KeyString ''page'') None)))))) \<noteq> []
   \<and> getPath (Obj (Path (KeyNumber 12) (Some (Path (KeyString ''items'')
      (Some (Path (KeyString ''page'') None)))))) None = Inr ''page:items:12''"
  using getPath_root_first [of "Path (KeyNumber 12) (Some (Path (KeyString ''items'')
      (Some (Path (KeyString ''page'') None))))"]
  by (simp add: chainKeys_def decimal.simps truthy_def)

text \<open>
  C3 as stated fails: for the chain c, b, a (leaf to root) the code returns \<open>a:b:c\<close>,
  while the keys joined leaf first are \<open>c:b:a\<close>.
\<close>

theorem getPath_leaf_first_counterexample:
  "getPath (Obj (Path (KeyString ''c'') (Some (Path (KeyString ''b'')
      (Some (Path (KeyString ''a'') None)))))) None = Inr ''a:b:c''
   \<and> joinColon (map toString (chainKeys (Path (KeyString ''c'') (Some (Path (KeyString ''b'')
      (Some (Path (KeyString ''a'') None))))))) = ''c:b:a''
   \<and> getPath (Obj (Path (KeyString ''c'') (Some (Path (KeyString ''b'')
      (Some (Path (KeyString ''a'') None)))))) None
     \<noteq> Inr (joinColon (map toString (chainKeys (Path (KeyString ''c'') (Some (Path (KeyString ''b'')
      (Some (Path (KeyString ''a'') None))))))))"
  by (simp add: truthy_def chainKeys_def)

text \<open>
  C4, as amended. Computing a path fails only when the handle passed in is itself
  \<^verbatim>\<open>undefined\<close> (the error \<open>path was undefined\<close>) or \<^verbatim>\<open>null\<close> (the engine's \<^verbatim>\<open>TypeError\<close>);
  \<open>set\<close> and \<open>get\<close> fail in these two cases and when \<^verbatim>\<open>info\<close> is \<^verbatim>\<open>undefined\<close> or
  \<^verbatim>\<open>null\<close> (a \<^verbatim>\<open>TypeError\<close>), and in no other. A chain of nodes always yields a path, in
  which a node whose key is undefined contributes the segment \<open>undefined\<close>: for a
  chain whose leaf key is not the empty string the path is the segments joined by
  colons, root first, the segment of an undefined key being \<open>undefined\<close>, of a string
  the string and of an index its decimal numeral.
\<close>

theorem path_failures_and_undefined_keys:
  "(getPath h c = Inl e) =
     (h = Undefined \<and> e = Error ''path was undefined''
      \<or> h = Null \<and> e = TypeError ''Cannot read properties of null (reading 'key')'')
   \<and> (set_cc i v this = Inl e) =
     (i = Undefined \<and> e = TypeError ''Cannot read properties of undefined (reading 'path')''
      \<or> i = Null \<and> e = TypeError ''Cannot read properties of null (reading 'path')''
      \<or> (\<exists>r. i = Obj r \<and> path r = Undefined \<and> e = Error ''path was undefined'')
      \<or> (\<exists>r. i = Obj r \<and> path r = Null
            \<and> e = TypeError ''Cannot read properties of null (reading 'key')''))
   \<and> (get_cc i that = Inl e) =
     (i = Undefined \<and> e = TypeError ''Cannot read properties of undefined (reading 'path')''
      \<or> i = Null \<and> e = TypeError ''Cannot read properties of null (reading 'path')''
      \<or> (\<exists>r. i = Obj r \<and> path r = Undefined \<and> e = Error ''path was undefined'')
      \<or> (\<exists>r. i = Obj r \<and> path r = Null
            \<and> e = TypeError ''Cannot read properties of null (reading 'key')''))
   \<and> (key p \<noteq> KeyString [] \<longrightarrow>
        getPath (Obj p) None =
          Inr (joinColon (rev (map (\<lambda>k. case k of KeyUndefined \<Rightarrow> ''undefined''
                                           | KeyString s \<Rightarrow> s
                                           | KeyNumber n \<Rightarrow> decimal (unat n))
                                   (chainKeys p)))))"
proof -
  have s: "(set_cc i v this = Inl e) =
      (infoPath i = Inl e \<or> (\<exists>g. infoPath i = Inr g \<and> getPath g None = Inl e))"
    by (auto simp: set_cc_def split: sum.splits)
  have t: "(get_cc i that = Inl e) =
      (infoPath i = Inl e \<or> (\<exists>g. infoPath i = Inr g \<and> getPath g None = Inl e))"
    by (auto simp: get_cc_def Let_def split: sum.splits)
  have ip: "(infoPath i = Inl e \<or> (\<exists>g. infoPath i = Inr g \<and> getPath g None = Inl e)) =
     (i = Undefined \<and> e = TypeError ''Cannot read properties of undefined (reading 'path')''
      \<or> i = Null \<and> e = TypeError ''Cannot read properties of null (reading 'path')''
      \<or> (\<exists>r. i = Obj r \<and> path r = Undefined \<and> e = Error ''path was undefined'')
      \<or> (\<exists>r. i = Obj r \<and> path r = Null
            \<and> e = TypeError ''Cannot read properties of null (reading 'key')''))"
    by (cases i) (auto simp: infoPath_def getPath_fails_iff)
  have r: "toString = (\<lambda>k. case k of KeyUndefined \<Rightarrow> ''undefined''
                                           | KeyString s \<Rightarrow> s
                                           | KeyNumber n \<Rightarrow> decimal (unat n))"
    by (rule ext) (simp split: jskey.splits)
  have leaf: "key p \<noteq> KeyString [] \<Longrightarrow> toString (key p) \<noteq> []"
    by (cases "key p") (simp_all add: decimal_nonempty)
  have u: "key p \<noteq> KeyString [] \<longrightarrow>
        getPath (Obj p) None = Inr (joinColon (rev (map toString (chainKeys p))))"
    using getPath_nonempty_leaf [of p] leaf by blast
  show ?thesis
    using getPath_fails_iff [of h c e] s t ip u unfolding r [symmetric] by simp
qed

theorem path_failures_and_undefined_keys_witness:
  "key (Path (KeyString ''b'') (Some (Path KeyUndefined (Some (Path (KeyString ''a'') None)))))
     \<noteq> KeyString []
   \<and> getPath (Obj (Path (KeyString ''b'') (Some (Path KeyUndefined
        (Some (Path (KeyString ''a'') None)))))) None = Inr ''a:undefined:b''
   \<and> getPath Undefined None = Inl (Error ''path was undefined'')
   \<and> getPath Null None = Inl (TypeError ''Cannot read properties of null (reading 'key')'')
   \<and> set_cc Undefined True \<lparr>cascadeMap = [], defaultValue = None\<rparr>
        = Inl (TypeError ''Cannot read properties of undefined (reading 'path')'')
   \<and> get_cc (Obj \<lparr>path = Null\<rparr>) \<lparr>cascadeMap = [(''a'', True)], defaultValue = None\<rparr>
        = Inl (TypeError ''Cannot read properties of null (reading 'key')'')"
  using path_failures_and_undefined_keys [of Undefined None "Error ''path was undefined''"
      Undefined True "\<lparr>cascadeMap = [], defaultValue = None\<rparr>"
      "\<lparr>cascadeMap = [(''a'', True)], defaultValue = None\<rparr>"
      "Path (KeyString ''b'') (Some (Path KeyUndefined (Some (Path (KeyString ''a'') None))))"]
  by (simp add: chainKeys_def truthy_def set_cc_def get_cc_def infoPath_def)

text \<open>
  C4 as stated fails: a node with an undefined key raises nothing; its segment is the
  text \<open>undefined\<close>, and \<open>set\<close> and \<open>get\<close> work with that path.
\<close>

theorem getPath_undefined_key_counterexample:
  "getPath (Obj (Path (KeyString ''b'') (Some (Path KeyUndefined
      (Some (Path (KeyString ''a'') None)))))) None = Inr ''a:undefined:b''
   \<and> set_cc (Obj \<lparr>path = Obj (Path (KeyString ''b'') (Some (Path KeyUndefined
      (Some (Path (KeyString ''a'') None)))))\<rparr>) True \<lparr>cascadeMap = [], defaultValue = None\<rparr>
      = Inr \<lparr>cascadeMap = [(''a:undefined:b'', True)], defaultValue = None\<rparr>
   \<and> get_cc (Obj \<lparr>path = Obj (Path KeyUndefined None)\<rparr>)
        \<lparr>cascadeMap = [(''undefined'', True)], defaultValue = None\<rparr> = Inr (Some True)"
  by (simp add: set_cc_def get_cc_def infoPath_def findLongestPrefix_def truthy_def
      startsWith_def)

text \<open>
  What \<open>get\<close> returns, whatever the stored keys: the value under the longest non-empty
  stored prefix of the path, or the default when no non-empty stored key is a prefix.
\<close>

lemma get_cc_longest_nonempty_prefix:
  assumes "getPath (path i) None = Inr target"
  shows "(\<exists>k v. k \<noteq> [] \<and> prefix k target \<and> map_of (cascadeMap this) k = Some v \<and>
            (\<forall>k'\<in>fst ` set (cascadeMap this). prefix k' target \<longrightarrow> length k' \<le> length k) \<and>
            get_cc (Obj i) this = Inr (Some v))
       \<or> ((\<forall>k'\<in>fst ` set (cascadeMap this). prefix k' target \<longrightarrow> k' = []) \<and>
            get_cc (Obj i) this = Inr (defaultValue this))"
proof -
  obtain m n where mn: "findLongestPrefix_loop target (map fst (cascadeMap this)) (None, 0) = (m, n)"
    by (cases "findLongestPrefix_loop target (map fst (cascadeMap this)) (None, 0)") auto
  have spec: "case m of
      None \<Rightarrow> (None::string option) = None \<and> (\<forall>p\<in>set (map fst (cascadeMap this)). prefix p target \<longrightarrow> p = [])
    | Some k \<Rightarrow> k \<noteq> [] \<and> prefix k target \<and> 0 \<le> length k \<and>
        (None = Some k \<or> k \<in> set (map fst (cascadeMap this))) \<and>
        (\<forall>p\<in>set (map fst (cascadeMap this)). prefix p target \<longrightarrow> length p \<le> length k)"
    using findLongestPrefix_loop_result [OF mn] by simp
  show ?thesis
  proof (cases m)
    case None
    then have "get_cc (Obj i) this = Inr (defaultValue this)"
      using assms mn by (simp add: get_cc_def infoPath_def findLongestPrefix_def truthy_def)
    then show ?thesis using spec None by auto
  next
    case (Some k)
    then have k: "k \<noteq> []" "prefix k target" "k \<in> fst ` set (cascadeMap this)"
      and mx: "\<forall>p\<in>fst ` set (cascadeMap this). prefix p target \<longrightarrow> length p \<le> length k"
      using spec by auto
    from k(3) obtain v where v: "map_of (cascadeMap this) k = Some v"
      by (metis domD dom_map_of_conv_image_fst)
    have "get_cc (Obj i) this = Inr (Some v)"
      using assms mn Some k(1) v
      by (simp add: get_cc_def infoPath_def findLongestPrefix_def truthy_def)
    then show ?thesis using k mx v by blast
  qed
qed

text \<open>
  C2. In a context that stores no value under the empty path (the data model's
  invariant, which \<open>set\<close> keeps on every node whose own key is not the empty string,
  see \<open>set_cc_keeps_keys_nonempty\<close>), for every node whose path \<open>target\<close> is computed,
  \<open>get\<close> returns the value stored under the stored key that is a prefix of \<open>target\<close>
  and longest among the stored prefixes of \<open>target\<close>; when no stored key is a prefix of
  \<open>target\<close> it returns the default value, and raises nothing.
\<close>

theorem get_cc_longest_prefix:
  assumes "getPath (path i) None = Inr target"
    and "[] \<notin> fst ` set (cascadeMap this)"
  shows "(\<exists>k v. prefix k target \<and> map_of (cascadeMap this) k = Some v \<and>
            (\<forall>k'\<in>fst ` set (cascadeMap this). prefix k' target \<longrightarrow> length k' \<le> length k) \<and>
            get_cc (Obj i) this = Inr (Some v))
       \<or> ((\<forall>k'\<in>fst ` set (cascadeMap this). \<not> prefix k' target) \<and>
            get_cc (Obj i) this = Inr (defaultValue this))"
  using get_cc_longest_nonempty_prefix [OF assms(1), of this] assms(2)
  by (elim disjE) (blast, metis)

text \<open>
  The example of C2: after \<open>set\<close> of 1 at \<open>a:b\<close> and of 2 at \<open>a:b:c\<close>, \<open>get\<close> gives 2 at
  \<open>a:b:c:d\<close>, 1 at \<open>a:b:x\<close> and the default at \<open>z\<close>.
\<close>

theorem get_cc_longest_prefix_witness:
  "getPath (path \<lparr>path = Obj (Path (KeyString ''d'') (Some (Path (KeyString ''c'')
       (Some (Path (KeyString ''b'') (Some (Path (KeyString ''a'') None)))))))\<rparr>) None = Inr ''a:b:c:d''
   \<and> [] \<notin> fst ` set (cascadeMap \<lparr>cascadeMap = [(''a:b'', 1::nat), (''a:b:c'', 2)], defaultValue = Some 0\<rparr>)
   \<and> set_cc (Obj \<lparr>path = Obj (Path (KeyString ''b'') (Some (Path (KeyString ''a'') None)))\<rparr>) (1::nat)
        \<lparr>cascadeMap = [], defaultValue = Some 0\<rparr>
      = Inr \<lparr>cascadeMap = [(''a:b'', 1)], defaultValue = Some 0\<rparr>
   \<and> set_cc (Obj \<lparr>path = Obj (Path (KeyString ''c'') (Some (Path (KeyString ''b'')
          (Some (Path (KeyString ''a'') None)))))\<rparr>) (2::nat)
        \<lparr>cascadeMap = [(''a:b'', 1)], defaultValue = Some 0\<rparr>
      = Inr \<lparr>cascadeMap = [(''a:b'', 1), (''a:b:c'', 2)], defaultValue = Some 0\<rparr>
   \<and> get_cc (Obj \<lparr>path = Obj (Path (KeyString ''d'') (Some (Path (KeyString ''c'')
          (Some (Path (KeyString ''b'') (Some (Path (KeyString ''a'') None)))))))\<rparr>)
        \<lparr>cascadeMap = [(''a:b'', 1::nat), (''a:b:c'', 2)], defaultValue = Some 0\<rparr> = Inr (Some 2)
   \<and> get_cc (Obj \<lparr>path = Obj (Path (KeyString ''x'') (Some (Path (KeyString ''b'')
          (Some (Path (KeyString ''a'') None)))))\<rparr>)
        \<lparr>cascadeMap = [(''a:b'', 1::nat), (''a:b:c'', 2)], defaultValue = Some 0\<rparr> = Inr (Some 1)
   \<and> get_cc (Obj \<lparr>path = Obj (Path (KeyString ''z'') None)\<rparr>)
        \<lparr>cascadeMap = [(''a:b'', 1::nat), (''a:b:c'', 2)], defaultValue = Some 0\<rparr> = Inr (Some 0)"
proof -
  have h: "getPath (path \<lparr>path = Obj (Path (KeyString ''d'') (Some (Path (KeyString ''c'')
       (Some (Path (KeyString ''b'') (Some (Path (KeyString ''a'') None)))))))\<rparr>) None = Inr ''a:b:c:d''"
    by (simp add: truthy_def)
  have n: "[] \<notin> fst ` set (cascadeMap \<lparr>cascadeMap = [(''a:b'', 1::nat), (''a:b:c'', 2)], defaultValue = Some 0\<rparr>)"
    by simp
  show ?thesis
    using h n get_cc_longest_prefix [OF h n]
    by (simp add: set_cc_def get_cc_def infoPath_def findLongestPrefix_def truthy_def
        startsWith_def)
qed

text \<open>
  C5 at a failing input. The node b under a has the path \<open>a:b\<close>, its sibling bc the
  path \<open>a:bc\<close>; the first is a string prefix of the second although the node is not an
  ancestor of its sibling, and \<open>get\<close> on bc returns the value that was set on b.
\<close>

theorem sibling_key_prefix_matches:
  "set_cc (Obj \<lparr>path = Obj (Path (KeyString ''b'') (Some (Path (KeyString ''a'') None)))\<rparr>) (1::nat)
        \<lparr>cascadeMap = [], defaultValue = None\<rparr>
      = Inr \<lparr>cascadeMap = [(''a:b'', 1)], defaultValue = None\<rparr>
   \<and> getPath (Obj (Path (KeyString ''bc'') (Some (Path (KeyString ''a'') None)))) None = Inr ''a:bc''
   \<and> prefix ''a:b'' ''a:bc''
   \<and> \<not> ancestorOrSelf (Path (KeyString ''b'') (Some (Path (KeyString ''a'') None)))
          (Path (KeyString ''bc'') (Some (Path (KeyString ''a'') None)))
   \<and> get_cc (Obj \<lparr>path = Obj (Path (KeyString ''bc'') (Some (Path (KeyString ''a'') None)))\<rparr>)
        \<lparr>cascadeMap = [(''a:b'', 1::nat)], defaultValue = None\<rparr> = Inr (Some 1)"
  by (simp add: set_cc_def get_cc_def infoPath_def findLongestPrefix_def truthy_def
      startsWith_def ancestorOrSelf_def)

section \<open>Field translation\<close>

declare translateFieldType.simps [simp del]

lemma translateFieldType_Link:
  assumes "fieldType f = ''Link''"
  shows "translateFieldType mk f st =
     (Inr (mark (required f) (fst (getLinkFieldType mk (linkType f) f st))),
      snd (getLinkFieldType mk (linkType f) f st))"
  using assms
  by (subst translateFieldType.simps) (simp add: mark_def split: prod.splits)

lemma translateFieldType_primitive:
  assumes "fieldType f \<noteq> ''Array''" and "fieldType f \<noteq> ''Link''"
  shows "translateFieldType mk f st =
     (case map_of ContentfulDataTypes (fieldType f) of
        None \<Rightarrow> (Inl (TypeError ''ContentfulDataTypes.get(...) is not a function''), st)
      | Some handler \<Rightarrow> (Inr (mark (required f) (handler f)), st))"
  using assms
  by (subst translateFieldType.simps) (simp add: mark_def split: option.splits)

lemma translateFieldType_Array_no_items:
  assumes "fieldType f = ''Array''" and "items f = None"
  shows "translateFieldType mk f st =
     (Inl (TypeError ''Cannot read properties of undefined (reading 'type')''), st)"
  using assms
  by (subst translateFieldType.simps) simp

lemma translateFieldType_Array_of_links:
  assumes "fieldType f = ''Array''" and "items f = Some X" and "fieldType X = ''Link''"
  shows "translateFieldType mk f st =
     (Inr (arrayOf (required f) (fst (getLinkFieldType mk (linkType X) f st))),
      snd (getLinkFieldType mk (linkType X) f st))"
  using assms
  by (subst translateFieldType.simps) (simp add: arrayOf_def split: prod.splits)

lemma translateFieldType_Array_of_other:
  assumes "fieldType f = ''Array''" and "items f = Some X" and "fieldType X \<noteq> ''Link''"
  shows "translateFieldType mk f st =
     (case fst (translateFieldType mk X st) of
        Inl e \<Rightarrow> Inl e
      | Inr d \<Rightarrow> Inr (arrayOf (required f) d),
      snd (translateFieldType mk X st))"
  using assms
  by (subst translateFieldType.simps) (simp add: arrayOf_def split: prod.splits sum.splits)

lemma unionNames_append: "unionNames (xs @ ys) = unionNames xs @ unionNames ys"
  by (induction xs rule: unionNames.induct) auto

lemma count_list_distinct: "distinct xs \<Longrightarrow> x \<in> set xs \<Longrightarrow> count_list xs x = 1"
  by (induction xs) auto

lemma getLinkFieldType_union:
  assumes "contentTypesOf f = Some cts" and "length cts \<noteq> 1"
  shows "getLinkFieldType mk lt f st =
     (\<lparr>dtype = concat (''UnionContentful'' # map (\<lambda>t. mk (Some t) (Some [])) cts),
        extensions = linkExtension f\<rparr>,
      if concat (''UnionContentful'' # map (\<lambda>t. mk (Some t) (Some [])) cts) \<in> set (unionsNameSet st)
      then st
      else createTypes
             (UnionType (concat (''UnionContentful'' # map (\<lambda>t. mk (Some t) (Some [])) cts))
                (map (\<lambda>t. mk (Some t) None) cts))
             (st\<lparr>unionsNameSet := unionsNameSet st
                     @ [concat (''UnionContentful'' # map (\<lambda>t. mk (Some t) (Some [])) cts)]\<rparr>))"
proof (cases cts)
  case Nil
  then show ?thesis using assms by (simp add: getLinkFieldType_def Let_def)
next
  case (Cons a as)
  then obtain b bs where "as = b # bs" using assms(2) by (cases as) auto
  then show ?thesis using assms Cons by (simp add: getLinkFieldType_def Let_def)
qed

lemma getLinkFieldType_state:
  "snd (getLinkFieldType mk lt f st) = st \<or>
   (\<exists>U ts. U \<notin> set (unionsNameSet st) \<and>
      snd (getLinkFieldType mk lt f st)
        = createTypes (UnionType U ts) (st\<lparr>unionsNameSet := unionsNameSet st @ [U]\<rparr>))"
proof (cases "contentTypesOf f")
  case None
  then show ?thesis by (simp add: getLinkFieldType_def)
next
  case (Some cts)
  show ?thesis
  proof (cases "length cts = 1")
    case True
    then obtain c where "cts = [c]" by (cases cts) auto
    then show ?thesis using Some by (simp add: getLinkFieldType_def)
  next
    case False
    show ?thesis
      unfolding getLinkFieldType_union [OF Some False] by auto
  qed
qed

lemma unionsDeclaredOnce_register:
  assumes "unionsDeclaredOnce st" and "U \<notin> set (unionsNameSet st)"
  shows "unionsDeclaredOnce (createTypes (UnionType U ts) (st\<lparr>unionsNameSet := unionsNameSet st @ [U]\<rparr>))"
proof -
  have "unionNames (created st @ [UnionType U ts]) = unionNames (created st) @ [U]"
    by (simp add: unionNames_append)
  then show ?thesis
    using assms by (simp add: unionsDeclaredOnce_def createTypes_def)
qed

lemma unionsDeclaredOnce_getLinkFieldType:
  assumes "unionsDeclaredOnce st"
  shows "unionsDeclaredOnce (snd (getLinkFieldType mk lt f st))"
proof -
  from getLinkFieldType_state [of mk lt f st] show ?thesis
  proof
    assume "snd (getLinkFieldType mk lt f st) = st"
    then show ?thesis using assms by simp
  next
    assume "\<exists>U ts. U \<notin> set (unionsNameSet st) \<and>
      snd (getLinkFieldType mk lt f st)
        = createTypes (UnionType U ts) (st\<lparr>unionsNameSet := unionsNameSet st @ [U]\<rparr>)"
    then obtain U ts where "U \<notin> set (unionsNameSet st)"
      and "snd (getLinkFieldType mk lt f st)
        = createTypes (UnionType U ts) (st\<lparr>unionsNameSet := unionsNameSet st @ [U]\<rparr>)"
      by blast
    then show ?thesis using unionsDeclaredOnce_register [OF assms] by simp
  qed
qed

lemma unionsDeclaredOnce_translateFieldType:
  "unionsDeclaredOnce st \<Longrightarrow> unionsDeclaredOnce (snd (translateFieldType mk f st))"
proof (induction mk f st rule: translateFieldType.induct)
  case (1 mk f st)
  consider (link) "fieldType f = ''Link''"
    | (prim) "fieldType f \<noteq> ''Array''" "fieldType f \<noteq> ''Link''"
    | (none) "fieldType f = ''Array''" "items f = None"
    | (links) X where "fieldType f = ''Array''" "items f = Some X" "fieldType X = ''Link''"
    | (other) X where "fieldType f = ''Array''" "items f = Some X" "fieldType X \<noteq> ''Link''"
    by (cases "items f") auto
  then show ?case
  proof cases
    case link
    show ?thesis
      unfolding translateFieldType_Link [OF link]
      using unionsDeclaredOnce_getLinkFieldType [OF "1.prems"] by simp
  next
    case prim
    show ?thesis
      unfolding translateFieldType_primitive [OF prim]
      using "1.prems" by (simp split: option.splits)
  next
    case none
    show ?thesis
      unfolding translateFieldType_Array_no_items [OF none] using "1.prems" by simp
  next
    case links
    show ?thesis
      unfolding translateFieldType_Array_of_links [OF links]
      using unionsDeclaredOnce_getLinkFieldType [OF "1.prems"] by simp
  next
    case other
    show ?thesis
      unfolding translateFieldType_Array_of_other [OF other]
      using "1.IH" [OF other "1.prems"] by simp
  qed
qed

section \<open>Claims about field translation\<close>

text \<open>
  C1 at a failing input. A Link field that is not an array and carries the validation
  naming the one content type Person on the field itself gets the generic type
  \<open>ContentfulEntry\<close>: the validations are read from \<^verbatim>\<open>field.items\<close> only. The array of
  links with the same validation on its items gets the translated name of Person.
\<close>

theorem single_link_validations_ignored:
  "translateFieldType mk
     (Field (Some ''author'') ''Link'' False False False None (Some ''Entry'')
        (Some [\<lparr>linkContentType = Some (Names [''Person''])\<rparr>])) st
   = (Inr \<lparr>dtype = ''ContentfulEntry'',
            extensions = Some [(''link'', [(''by'', ''id''), (''from'', ''author___NODE'')])]\<rparr>, st)
   \<and> translateFieldType mk
     (Field (Some ''authors'') ''Array'' False False False
        (Some (Field None ''Link'' False False False None (Some ''Entry'')
           (Some [\<lparr>linkContentType = Some (Names [''Person''])\<rparr>]))) None None) st
   = (Inr \<lparr>dtype = ''['' @ mk (Some ''Person'') None @ '']'',
            extensions = Some [(''link'', [(''by'', ''id''), (''from'', ''authors___NODE'')])]\<rparr>, st)"
  by (simp add: translateFieldType.simps getLinkFieldType_def contentTypesOf_def
      linkContentTypeTruthy_def linkExtension_def template_def)

text \<open>
  C8, as amended. A field that is neither an array nor a link and whose kind the
  primitive table does not hold is not translated: the call raises the engine's
  \<^verbatim>\<open>TypeError\<close> (the table's \<^verbatim>\<open>get\<close> returns \<^verbatim>\<open>undefined\<close>, which is then called), the
  state is untouched, and no descriptor is returned.
\<close>

theorem unknown_kind_fails:
  assumes "fieldType f \<noteq> ''Array''" and "fieldType f \<noteq> ''Link''"
    and "fieldType f \<notin> set (map fst ContentfulDataTypes)"
  shows "translateFieldType mk f st
         = (Inl (TypeError ''ContentfulDataTypes.get(...) is not a function''), st)"
proof -
  have "map_of ContentfulDataTypes (fieldType f) = None"
    using assms(3) by (simp add: map_of_eq_None_iff)
  then show ?thesis
    using assms(1,2) by (subst translateFieldType.simps) simp
qed

theorem unknown_kind_fails_witness:
  "fieldType (Field (Some ''pin'') ''Geo'' True False False None None None) \<noteq> ''Array''
   \<and> fieldType (Field (Some ''pin'') ''Geo'' True False False None None None) \<noteq> ''Link''
   \<and> fieldType (Field (Some ''pin'') ''Geo'' True False False None None None)
        \<notin> set (map fst ContentfulDataTypes)
   \<and> translateFieldType makeTypeName_sample
        (Field (Some ''pin'') ''Geo'' True False False None None None)
        \<lparr>unionsNameSet = [], created = []\<rparr>
      = (Inl (TypeError ''ContentfulDataTypes.get(...) is not a function''),
         \<lparr>unionsNameSet = [], created = []\<rparr>)"
proof -
  have h: "fieldType (Field (Some ''pin'') ''Geo'' True False False None None None)
        \<notin> set (map fst ContentfulDataTypes)"
    by (simp add: ContentfulDataTypes_def)
  show ?thesis
    using h unknown_kind_fails [OF _ _ h, of makeTypeName_sample "\<lparr>unionsNameSet = [], created = []\<rparr>"]
    by simp
qed

text \<open>
  C8 as stated fails in the error it names: for the kind \<open>Geo\<close> the exception raised
  is a \<^verbatim>\<open>TypeError\<close>, not an \<^verbatim>\<open>UnknownFieldTypeError\<close>, a class the code does not have.
\<close>

theorem unknown_kind_error_counterexample:
  "translateFieldType makeTypeName_sample
        (Field (Some ''pin'') ''Geo'' True False False None None None)
        \<lparr>unionsNameSet = [], created = []\<rparr>
      = (Inl (TypeError ''ContentfulDataTypes.get(...) is not a function''),
         \<lparr>unionsNameSet = [], created = []\<rparr>)
   \<and> errorName (TypeError ''ContentfulDataTypes.get(...) is not a function'') = ''TypeError''
   \<and> errorName (TypeError ''ContentfulDataTypes.get(...) is not a function'')
        \<noteq> ''UnknownFieldTypeError''"
  by (simp add: translateFieldType_primitive ContentfulDataTypes_def)

text \<open>
  C6, as amended. For an array field whose items \<open>X\<close> are not links, translating the
  array is translating \<open>X\<close>, wrapping the resulting type expression once in brackets and
  then appending the required marker iff the array is required, whatever \<open>X\<close>'s own
  marker. For items that are links the element descriptor is instead what the link
  translator returns for the array field itself, wrapped and marked in the same way.
\<close>

theorem translate_array:
  assumes "fieldType f = ''Array''" and "items f = Some X"
  shows "translateFieldType mk f st =
     (if fieldType X = ''Link'' then
        (case getLinkFieldType mk (linkType X) f st of
           (d, st') \<Rightarrow> (Inr (arrayOf (required f) d), st'))
      else
        (case translateFieldType mk X st of
           (Inl e, st') \<Rightarrow> (Inl e, st')
         | (Inr d, st') \<Rightarrow> (Inr (arrayOf (required f) d), st')))"
  using assms
  by (subst translateFieldType.simps) (simp add: arrayOf_def split: prod.splits sum.splits)

theorem translate_array_witness:
  "fieldType (Field (Some ''tags'') ''Array'' True False False
       (Some (Field None ''Symbol'' True False False None None None)) None None) = ''Array''
   \<and> items (Field (Some ''tags'') ''Array'' True False False
       (Some (Field None ''Symbol'' True False False None None None)) None None)
      = Some (Field None ''Symbol'' True False False None None None)
   \<and> translateFieldType makeTypeName_sample (Field None ''Symbol'' True False False None None None)
        \<lparr>unionsNameSet = [], created = []\<rparr>
      = (Inr \<lparr>dtype = ''String!'', extensions = None\<rparr>, \<lparr>unionsNameSet = [], created = []\<rparr>)
   \<and> translateFieldType makeTypeName_sample
        (Field (Some ''tags'') ''Array'' True False False
           (Some (Field None ''Symbol'' True False False None None None)) None None)
        \<lparr>unionsNameSet = [], created = []\<rparr>
      = (Inr \<lparr>dtype = ''[String!]!'', extensions = None\<rparr>, \<lparr>unionsNameSet = [], created = []\<rparr>)"
proof -
  have x: "translateFieldType makeTypeName_sample (Field None ''Symbol'' True False False None None None)
        \<lparr>unionsNameSet = [], created = []\<rparr>
      = (Inr \<lparr>dtype = ''String!'', extensions = None\<rparr>, \<lparr>unionsNameSet = [], created = []\<rparr>)"
    by (simp add: translateFieldType.simps ContentfulDataTypes_def)
  show ?thesis
    using x translate_array [of "Field (Some ''tags'') ''Array'' True False False
           (Some (Field None ''Symbol'' True False False None None None)) None None"
        "Field None ''Symbol'' True False False None None None" makeTypeName_sample
        "\<lparr>unionsNameSet = [], created = []\<rparr>"]
    by (simp add: arrayOf_def)
qed

text \<open>
  C6 as stated fails for arrays of links: with required link items the array's type is
  \<open>[ContentfulEntry]\<close>, while translating the items alone gives \<open>ContentfulEntry!\<close> (and
  another foreign-key name), which wrapped is \<open>[ContentfulEntry!]\<close>.
\<close>

theorem translate_array_of_links_counterexample:
  "translateFieldType makeTypeName_sample
        (Field (Some ''authors'') ''Array'' False False False
           (Some (Field None ''Link'' True False False None (Some ''Entry'') None)) None None)
        \<lparr>unionsNameSet = [], created = []\<rparr>
      = (Inr \<lparr>dtype = ''[ContentfulEntry]'',
               extensions = Some [(''link'', [(''by'', ''id''), (''from'', ''authors___NODE'')])]\<rparr>,
         \<lparr>unionsNameSet = [], created = []\<rparr>)
   \<and> translateFieldType makeTypeName_sample
        (Field None ''Link'' True False False None (Some ''Entry'') None)
        \<lparr>unionsNameSet = [], created = []\<rparr>
      = (Inr \<lparr>dtype = ''ContentfulEntry!'',
               extensions = Some [(''link'', [(''by'', ''id''), (''from'', ''undefined___NODE'')])]\<rparr>,
         \<lparr>unionsNameSet = [], created = []\<rparr>)
   \<and> arrayOf False \<lparr>dtype = ''ContentfulEntry!'',
               extensions = Some [(''link'', [(''by'', ''id''), (''from'', ''undefined___NODE'')])]\<rparr>
      = \<lparr>dtype = ''[ContentfulEntry!]'',
               extensions = Some [(''link'', [(''by'', ''id''), (''from'', ''undefined___NODE'')])]\<rparr>
   \<and> translateFieldType makeTypeName_sample
        (Field (Some ''authors'') ''Array'' False False False
           (Some (Field None ''Link'' True False False None (Some ''Entry'') None)) None None)
        \<lparr>unionsNameSet = [], created = []\<rparr>
      \<noteq> (Inr (arrayOf False \<lparr>dtype = ''ContentfulEntry!'',
               extensions = Some [(''link'', [(''by'', ''id''), (''from'', ''undefined___NODE'')])]\<rparr>),
         \<lparr>unionsNameSet = [], created = []\<rparr>)"
  by (simp add: translateFieldType.simps getLinkFieldType_def contentTypesOf_def
      linkExtension_def template_def arrayOf_def)

text \<open>
  C7, as amended. A union is registered under its name, built from the member names in
  the order listed. When two fields name, in the validations the link translator reads,
  the same sequence of content types (not exactly one), then in any state where every
  registered union has been declared once, translating the first declares the union
  iff its name was not registered, translating the second declares nothing and
  returns the same union name, and the union stands declared exactly once.
\<close>

theorem union_declared_once:
  assumes "contentTypesOf f = Some cts" and "contentTypesOf g = Some cts"
    and "length cts \<noteq> 1" and "unionsDeclaredOnce st"
    and "getLinkFieldType mk lt f st = (d1, st1)"
    and "getLinkFieldType mk lt' g st1 = (d2, st2)"
  shows "dtype d1 = concat (''UnionContentful'' # map (\<lambda>t. mk (Some t) (Some [])) cts) \<and>
         dtype d2 = dtype d1 \<and>
         created st1 = created st @
           (if dtype d1 \<in> set (unionsNameSet st) then []
            else [UnionType (dtype d1) (map (\<lambda>t. mk (Some t) None) cts)]) \<and>
         st2 = st1 \<and>
         unionsDeclaredOnce st1 \<and>
         count_list (unionNames (created st1)) (dtype d1) = 1"
proof -
  define U where "U = concat (''UnionContentful'' # map (\<lambda>t. mk (Some t) (Some [])) cts)"
  have d1: "dtype d1 = U"
    using assms(5) unfolding U_def getLinkFieldType_union [OF assms(1,3)] by auto
  have st1: "st1 = (if U \<in> set (unionsNameSet st) then st
                    else createTypes (UnionType U (map (\<lambda>t. mk (Some t) None) cts))
                           (st\<lparr>unionsNameSet := unionsNameSet st @ [U]\<rparr>))"
    using assms(5) unfolding U_def getLinkFieldType_union [OF assms(1,3)] by auto
  have reg: "U \<in> set (unionsNameSet st1)"
    using st1 by (simp add: createTypes_def)
  have second: "d2 = \<lparr>dtype = U, extensions = linkExtension g\<rparr> \<and> st2 = st1"
    using assms(6) reg unfolding U_def getLinkFieldType_union [OF assms(2,3)] by auto
  have cr: "created st1 = created st @
      (if U \<in> set (unionsNameSet st) then [] else [UnionType U (map (\<lambda>t. mk (Some t) None) cts)])"
    using st1 by (simp add: createTypes_def)
  have inv: "unionsDeclaredOnce st1"
    using unionsDeclaredOnce_getLinkFieldType [OF assms(4), of mk lt f] assms(5) by simp
  have "U \<in> set (unionNames (created st1))"
    using inv reg by (simp add: unionsDeclaredOnce_def)
  moreover have "distinct (unionNames (created st1))"
    using inv by (simp add: unionsDeclaredOnce_def)
  ultimately have cnt: "count_list (unionNames (created st1)) U = 1"
    by (simp add: count_list_distinct)
  show ?thesis
    using second d1 cr inv cnt by (simp add: U_def)
qed

theorem union_declared_once_witness:
  "contentTypesOf (Field (Some ''authors'') ''Array'' False False False
       (Some (Field None ''Link'' False False False None (Some ''Entry'')
          (Some [\<lparr>linkContentType = Some (Names [''Person'', ''Page''])\<rparr>]))) None None)
     = Some [''Person'', ''Page'']
   \<and> contentTypesOf (Field (Some ''owners'') ''Array'' True False False
       (Some (Field None ''Link'' False False False None (Some ''Entry'')
          (Some [\<lparr>linkContentType = None\<rparr>,
                 \<lparr>linkContentType = Some (Names [''Person'', ''Page''])\<rparr>]))) None None)
     = Some [''Person'', ''Page'']
   \<and> length [''Person'', ''Page''] \<noteq> 1
   \<and> unionsDeclaredOnce \<lparr>unionsNameSet = [], created = []\<rparr>
   \<and> getLinkFieldType makeTypeName_sample (Some ''Entry'') (Field (Some ''authors'') ''Array'' False False False
       (Some (Field None ''Link'' False False False None (Some ''Entry'')
          (Some [\<lparr>linkContentType = Some (Names [''Person'', ''Page''])\<rparr>]))) None None)
        \<lparr>unionsNameSet = [], created = []\<rparr>
     = (\<lparr>dtype = ''UnionContentfulPersonPage'',
        extensions = Some [(''link'', [(''by'', ''id''), (''from'', ''authors___NODE'')])]\<rparr>,
        \<lparr>unionsNameSet = [''UnionContentfulPersonPage''],
        created = [UnionType ''UnionContentfulPersonPage'' [''ContentfulPerson'', ''ContentfulPage'']]\<rparr>)
   \<and> getLinkFieldType makeTypeName_sample (Some ''Entry'') (Field (Some ''owners'') ''Array'' True False False
       (Some (Field None ''Link'' False False False None (Some ''Entry'')
          (Some [\<lparr>linkContentType = None\<rparr>,
                 \<lparr>linkContentType = Some (Names [''Person'', ''Page''])\<rparr>]))) None None)
        \<lparr>unionsNameSet = [''UnionContentfulPersonPage''],
        created = [UnionType ''UnionContentfulPersonPage'' [''ContentfulPerson'', ''ContentfulPage'']]\<rparr>
     = (\<lparr>dtype = ''UnionContentfulPersonPage'',
        extensions = Some [(''link'', [(''by'', ''id''), (''from'', ''owners___NODE'')])]\<rparr>,
        \<lparr>unionsNameSet = [''UnionContentfulPersonPage''],
        created = [UnionType ''UnionContentfulPersonPage'' [''ContentfulPerson'', ''ContentfulPage'']]\<rparr>)
   \<and> count_list (unionNames (created \<lparr>unionsNameSet = [''UnionContentfulPersonPage''],
        created = [UnionType ''UnionContentfulPersonPage'' [''ContentfulPerson'', ''ContentfulPage'']]\<rparr>)) ''UnionContentfulPersonPage'' = 1"
proof -
  have f: "contentTypesOf (Field (Some ''authors'') ''Array'' False False False
       (Some (Field None ''Link'' False False False None (Some ''Entry'')
          (Some [\<lparr>linkContentType = Some (Names [''Person'', ''Page''])\<rparr>]))) None None)
     = Some [''Person'', ''Page'']"
    by (simp add: contentTypesOf_def linkContentTypeTruthy_def)
  have g: "contentTypesOf (Field (Some ''owners'') ''Array'' True False False
       (Some (Field None ''Link'' False False False None (Some ''Entry'')
          (Some [\<lparr>linkContentType = None\<rparr>,
                 \<lparr>linkContentType = Some (Names [''Person'', ''Page''])\<rparr>]))) None None)
     = Some [''Person'', ''Page'']"
    by (simp add: contentTypesOf_def linkContentTypeTruthy_def)
  have n: "length [''Person'', ''Page''] \<noteq> 1" by simp
  have i: "unionsDeclaredOnce \<lparr>unionsNameSet = [], created = []\<rparr>"
    by (simp add: unionsDeclaredOnce_def)
  have a: "getLinkFieldType makeTypeName_sample (Some ''Entry'') (Field (Some ''authors'') ''Array'' False False False
       (Some (Field None ''Link'' False False False None (Some ''Entry'')
          (Some [\<lparr>linkContentType = Some (Names [''Person'', ''Page''])\<rparr>]))) None None)
        \<lparr>unionsNameSet = [], created = []\<rparr>
     = (\<lparr>dtype = ''UnionContentfulPersonPage'',
        extensions = Some [(''link'', [(''by'', ''id''), (''from'', ''authors___NODE'')])]\<rparr>,
        \<lparr>unionsNameSet = [''UnionContentfulPersonPage''],
        created = [UnionType ''UnionContentfulPersonPage'' [''ContentfulPerson'', ''ContentfulPage'']]\<rparr>)"
    by (simp add: getLinkFieldType_def f linkExtension_def template_def makeTypeName_sample_def
        createTypes_def Let_def)
  have b: "getLinkFieldType makeTypeName_sample (Some ''Entry'') (Field (Some ''owners'') ''Array'' True False False
       (Some (Field None ''Link'' False False False None (Some ''Entry'')
          (Some [\<lparr>linkContentType = None\<rparr>,
                 \<lparr>linkContentType = Some (Names [''Person'', ''Page''])\<rparr>]))) None None)
        \<lparr>unionsNameSet = [''UnionContentfulPersonPage''],
        created = [UnionType ''UnionContentfulPersonPage'' [''ContentfulPerson'', ''ContentfulPage'']]\<rparr>
     = (\<lparr>dtype = ''UnionContentfulPersonPage'',
        extensions = Some [(''link'', [(''by'', ''id''), (''from'', ''owners___NODE'')])]\<rparr>,
        \<lparr>unionsNameSet = [''UnionContentfulPersonPage''],
        created = [UnionType ''UnionContentfulPersonPage'' [''ContentfulPerson'', ''ContentfulPage'']]\<rparr>)"
    by (simp add: getLinkFieldType_def g linkExtension_def template_def makeTypeName_sample_def
        createTypes_def Let_def)
  show ?thesis
    using f g i a b union_declared_once [OF f g n i a b] by simp
qed

text \<open>
  C7 as stated fails: two fields naming the same set of content types in different
  orders cause two union declarations, under two names.
\<close>

theorem union_member_order_counterexample:
  "translateFieldType makeTypeName_sample
     (Field (Some ''authors'') ''Array'' False False False
        (Some (Field None ''Link'' False False False None (Some ''Entry'')
           (Some [\<lparr>linkContentType = Some (Names [''Person'', ''Page''])\<rparr>]))) None None)
     \<lparr>unionsNameSet = [], created = []\<rparr>
   = (Inr \<lparr>dtype = ''[UnionContentfulPersonPage]'',
            extensions = Some [(''link'', [(''by'', ''id''), (''from'', ''authors___NODE'')])]\<rparr>,
      \<lparr>unionsNameSet = [''UnionContentfulPersonPage''],
       created = [UnionType ''UnionContentfulPersonPage'' [''ContentfulPerson'', ''ContentfulPage'']]\<rparr>)
   \<and> translateFieldType makeTypeName_sample
     (Field (Some ''owners'') ''Array'' False False False
        (Some (Field None ''Link'' False False False None (Some ''Entry'')
           (Some [\<lparr>linkContentType = Some (Names [''Page'', ''Person''])\<rparr>]))) None None)
     \<lparr>unionsNameSet = [''UnionContentfulPersonPage''],
      created = [UnionType ''UnionContentfulPersonPage'' [''ContentfulPerson'', ''ContentfulPage'']]\<rparr>
   = (Inr \<lparr>dtype = ''[UnionContentfulPagePerson]'',
            extensions = Some [(''link'', [(''by'', ''id''), (''from'', ''owners___NODE'')])]\<rparr>,
      \<lparr>unionsNameSet = [''UnionContentfulPersonPage'', ''UnionContentfulPagePerson''],
       created = [UnionType ''UnionContentfulPersonPage'' [''ContentfulPerson'', ''ContentfulPage''],
                  UnionType ''UnionContentfulPagePerson'' [''ContentfulPage'', ''ContentfulPerson'']]\<rparr>)
   \<and> set [''Person'', ''Page''] = set [''Page'', ''Person'']"
  by (simp add: translateFieldType.simps getLinkFieldType_def contentTypesOf_def
      linkContentTypeTruthy_def linkExtension_def template_def makeTypeName_sample_def
      createTypes_def insert_commute Let_def)

section \<open>Schema building\<close>

lemma fst_getLinkFieldType:
  "fst (getLinkFieldType mk lt f s) = fst (getLinkFieldType mk lt f s')"
  by (simp add: getLinkFieldType_def Let_def split: option.splits list.splits)

lemma fst_translateFieldType:
  "fst (translateFieldType mk f s) = fst (translateFieldType mk f s')"
proof (induction mk f s arbitrary: s' rule: translateFieldType.induct)
  case (1 mk f st)
  consider (link) "fieldType f = ''Link''"
    | (prim) "fieldType f \<noteq> ''Array''" "fieldType f \<noteq> ''Link''"
    | (none) "fieldType f = ''Array''" "items f = None"
    | (links) X where "fieldType f = ''Array''" "items f = Some X" "fieldType X = ''Link''"
    | (other) X where "fieldType f = ''Array''" "items f = Some X" "fieldType X \<noteq> ''Link''"
    by (cases "items f") auto
  then show ?case
  proof cases
    case link
    show ?thesis
      unfolding translateFieldType_Link [OF link]
      using fst_getLinkFieldType [of mk "linkType f" f st s'] by simp
  next
    case prim
    show ?thesis
      unfolding translateFieldType_primitive [OF prim] by (simp split: option.splits)
  next
    case none
    show ?thesis
      unfolding translateFieldType_Array_no_items [OF none] by simp
  next
    case links
    show ?thesis
      unfolding translateFieldType_Array_of_links [OF links]
      using fst_getLinkFieldType [of mk "linkType X" f st s'] by simp
  next
    case other
    have "fst (translateFieldType mk X st) = fst (translateFieldType mk X s')"
      by (rule "1.IH" [OF other])
    then show ?thesis
      unfolding translateFieldType_Array_of_other [OF other] by simp
  qed
qed

lemma translateFields_append:
  "translateFields mk (xs @ ys) acc st =
     (case translateFields mk xs acc st of
        (Inl e, st') \<Rightarrow> (Inl e, st')
      | (Inr a, st') \<Rightarrow> translateFields mk ys a st')"
  by (induction xs arbitrary: acc st) (auto split: prod.splits sum.splits)

lemma translateFields_succeeds:
  assumes "\<forall>f\<in>set fs. enabled f \<longrightarrow> (\<exists>d. fst (translateFieldType mk f s0) = Inr d)"
  shows "\<exists>fm st'. translateFields mk fs acc st = (Inr fm, st')"
  using assms
proof (induction fs arbitrary: acc st)
  case Nil
  then show ?case by simp
next
  case (Cons f fs)
  show ?case
  proof (cases "enabled f")
    case True
    then obtain d where "fst (translateFieldType mk f s0) = Inr d"
      using Cons.prems by auto
    then have "fst (translateFieldType mk f st) = Inr d"
      using fst_translateFieldType [of mk f st s0] by simp
    then obtain st1 where "translateFieldType mk f st = (Inr d, st1)"
      by (cases "translateFieldType mk f st") auto
    then show ?thesis
      using True Cons.IH [of "assign (template (fieldId f)) d acc" st1] Cons.prems
      by (auto simp: enabled_def)
  next
    case False
    then show ?thesis
      using Cons.IH [of acc st] Cons.prems by (auto simp: enabled_def)
  qed
qed

lemma translateFields_distinct:
  "translateFields mk fs acc st = (Inr fm, st') \<Longrightarrow> distinct (map fst acc)
   \<Longrightarrow> distinct (map fst fm)"
  by (induction fs arbitrary: acc st)
     (auto simp: assign_def distinct_update split: if_splits prod.splits sum.splits)

lemma translateFields_other_key:
  "translateFields mk fs acc st = (Inr fm, st')
   \<Longrightarrow> \<forall>f\<in>set fs. enabled f \<longrightarrow> template (fieldId f) \<noteq> k
   \<Longrightarrow> map_of fm k = map_of acc k"
proof (induction fs arbitrary: acc st)
  case Nil
  then show ?case by simp
next
  case (Cons f fs)
  show ?case
  proof (cases "enabled f")
    case True
    then obtain d s1 where d: "translateFieldType mk f st = (Inr d, s1)"
      and r: "translateFields mk fs (assign (template (fieldId f)) d acc) s1 = (Inr fm, st')"
      using Cons.prems(1) by (auto simp: enabled_def split: prod.splits sum.splits)
    have "map_of fm k = map_of (assign (template (fieldId f)) d acc) k"
      using Cons.IH [OF r] Cons.prems(2) by simp
    then show ?thesis using True Cons.prems(2) by (auto simp: assign_def update_conv')
  next
    case False
    then show ?thesis using Cons.IH [of acc st] Cons.prems by (auto simp: enabled_def)
  qed
qed

lemma spread_other_key:
  "k \<notin> fst ` set fm \<Longrightarrow> map_of (spread base fm) k = map_of base k"
  unfolding spread_def
  by (induction fm arbitrary: base) (auto simp: update_conv')

lemma spread_map_of:
  "distinct (map fst fm) \<Longrightarrow> map_of fm k = Some d \<Longrightarrow> map_of (spread base fm) k = Some d"
proof (induction fm arbitrary: base)
  case Nil
  then show ?case by simp
next
  case (Cons e fm)
  obtain k' v' where e: "e = (k', v')" by (cases e)
  have step: "spread base (e # fm) = spread (AList.update k' v' base) fm"
    by (simp add: spread_def e)
  show ?case
  proof (cases "k' = k")
    case True
    then have "v' = d" and "k \<notin> fst ` set fm"
      using Cons.prems e by auto
    then show ?thesis
      using step True spread_other_key [of k fm "AList.update k' v' base"]
      by (simp add: update_conv')
  next
    case False
    then show ?thesis
      using step Cons.IH [of "AList.update k' v' base"] Cons.prems e by simp
  qed
qed

lemma spread_distinct:
  "distinct (map fst base) \<Longrightarrow> distinct (map fst (spread base fm))"
  unfolding spread_def
  by (induction fm arbitrary: base) (auto simp: distinct_update)

lemma single_entry:
  "distinct (map fst al) \<Longrightarrow> map_of al k = Some d \<Longrightarrow> filter (\<lambda>e. fst e = k) al = [(k, d)]"
proof (induction al)
  case Nil
  then show ?case by simp
next
  case (Cons e al)
  show ?case
  proof (cases "fst e = k")
    case True
    then have "e = (k, d)" using Cons.prems(2) by (cases e) auto
    moreover have "k \<notin> fst ` set al"
      using Cons.prems(1) True by auto
    then have "filter (\<lambda>e. fst e = k) al = []"
      by (force simp: filter_empty_conv)
    ultimately show ?thesis by simp
  next
    case False
    then show ?thesis using Cons by (cases e) auto
  qed
qed

lemma contentTypes_append:
  "contentTypes mk u (pre @ rest) st =
     (case contentTypes mk u pre st of
        (Inl e, st') \<Rightarrow> (Inl e, st')
      | (Inr _, st') \<Rightarrow> contentTypes mk u rest st')"
  by (induction pre arbitrary: st) (auto split: prod.splits sum.splits)

lemma foldl_created:
  "foldl (\<lambda>s t. s\<lparr>created := created s @ [t]\<rparr>) st ts = st\<lparr>created := created st @ ts\<rparr>"
  by (induction ts arbitrary: st) auto

text \<open>
  Every state the schema build reaches from the initial one has each registered union
  declared exactly once.
\<close>

lemma unionsDeclaredOnce_translateFields:
  "unionsDeclaredOnce st \<Longrightarrow> unionsDeclaredOnce (snd (translateFields mk fs acc st))"
proof (induction fs arbitrary: acc st)
  case Nil
  then show ?case by simp
next
  case (Cons f fs)
  obtain r s1 where t: "translateFieldType mk f st = (r, s1)"
    by (cases "translateFieldType mk f st")
  have s1: "unionsDeclaredOnce s1"
    using unionsDeclaredOnce_translateFieldType [OF Cons.prems, of mk f] t by simp
  show ?case
  proof (cases "disabled f \<or> omitted f")
    case True
    then show ?thesis using Cons.IH [OF Cons.prems] by simp
  next
    case False
    then show ?thesis using t s1 Cons.IH [OF s1] by (cases r) simp_all
  qed
qed

lemma unionsDeclaredOnce_other:
  assumes "unionsDeclaredOnce st" and "unionNames [t] = []"
  shows "unionsDeclaredOnce (createTypes t st)"
  using assms by (simp add: unionsDeclaredOnce_def createTypes_def unionNames_append)

lemma unionsDeclaredOnce_contentTypeSchema:
  assumes "unionsDeclaredOnce st"
  shows "unionsDeclaredOnce (snd (contentTypeSchema mk u c st))"
proof -
  obtain r s1 where t: "translateFields mk (fields c) [] st = (r, s1)"
    by (cases "translateFields mk (fields c) [] st")
  have "unionsDeclaredOnce s1"
    using unionsDeclaredOnce_translateFields [OF assms, of mk "fields c" "[]"] t by simp
  then show ?thesis
    using t by (cases r) (simp_all add: contentTypeSchema_def unionsDeclaredOnce_other)
qed

lemma unionsDeclaredOnce_contentTypes:
  "unionsDeclaredOnce st \<Longrightarrow> unionsDeclaredOnce (snd (contentTypes mk u cs st))"
proof (induction cs arbitrary: st)
  case Nil
  then show ?case by simp
next
  case (Cons c cs)
  obtain r s1 where t: "contentTypeSchema mk u c st = (r, s1)"
    by (cases "contentTypeSchema mk u c st")
  have s1: "unionsDeclaredOnce s1"
    using unionsDeclaredOnce_contentTypeSchema [OF Cons.prems, of mk u c] t by simp
  show ?case using t s1 Cons.IH [OF s1] by (cases r) simp_all
qed

lemma unionsDeclaredOnce_generateSchema:
  assumes "unionsDeclaredOnce st"
  shows "unionsDeclaredOnce (snd (generateSchema mk u cs st))"
proof -
  have "unionNames genericTypes = []"
    by (simp add: genericTypes_def)
  then have "unionsDeclaredOnce (st\<lparr>created := created st @ genericTypes\<rparr>)"
    using assms by (simp add: unionsDeclaredOnce_def unionNames_append)
  then show ?thesis
    unfolding generateSchema_def createTypes_def foldl_created
    by (rule unionsDeclaredOnce_contentTypes)
qed

lemma unionsDeclaredOnce_initially: "unionsDeclaredOnce \<lparr>unionsNameSet = [], created = []\<rparr>"
  by (simp add: unionsDeclaredOnce_def)

section \<open>Claims about schema building\<close>

text \<open>
  C9. When the schema build has gone through the content types \<open>pre\<close> and translating
  the fields of the next content type \<open>c\<close> raises \<open>e\<close>, the build ends there with \<open>e\<close>
  raised again, its message prefixed by the name of \<open>c\<close> (its \<^verbatim>\<open>sys.id\<close> when the name is
  absent or empty), in the state in which the translation failed: whatever content
  types \<open>post\<close> follow, none is translated and nothing is emitted for them.
\<close>

theorem schema_error_aborts_batch:
  assumes "generateSchema mk u pre st = (Inr (), st1)"
    and "translateFields mk (fields c) [] st1 = (Inl e, st2)"
  shows "generateSchema mk u (pre @ c # post) st
         = (Inl (message_update
                   (''Unable to create schema for Contentful Content Type ''
                      @ (case name c of None \<Rightarrow> sys_id c
                         | Some n \<Rightarrow> if n = [] then sys_id c else n)
                      @ '':'' @ [CHR 0x0A] @ message e) e),
            st2)"
proof -
  have c: "contentTypeSchema mk u c st1 = (Inl e, st2)"
    using assms(2) by (simp add: contentTypeSchema_def)
  have "contentTypes mk u (c # post) st1 = (Inl (annotate c e), st2)"
    using c by simp
  then have "generateSchema mk u (pre @ c # post) st = (Inl (annotate c e), st2)"
    using assms(1) by (simp add: generateSchema_def contentTypes_append)
  then show ?thesis
    by (simp add: annotate_def truthy_def split: option.splits)
qed

theorem schema_error_aborts_batch_witness:
  "generateSchema makeTypeName_sample False
     [ContentTypeItem ''page'' (Some ''Page'')
        [Field (Some ''title'') ''Symbol'' False False False None None None]]
     \<lparr>unionsNameSet = [], created = []\<rparr>
   = (Inr (),
      \<lparr>unionsNameSet = [],
       created = genericTypes @
         [ObjectType ''Contentfulpage''
            [(''id'', \<lparr>dtype = ''ID!'', extensions = None\<rparr>),
             (''sys'', \<lparr>dtype = ''ContentfulInternalSys'', extensions = None\<rparr>),
             (''title'', \<lparr>dtype = ''String'', extensions = None\<rparr>)]
            [''ContentfulInternalReference'', ''ContentfulEntry'', ''Node'']
            (Some [(''dontInfer'', [])])]\<rparr>)
   \<and> translateFields makeTypeName_sample
        (fields (ContentTypeItem ''map'' None
           [Field (Some ''pin'') ''Geo'' False False False None None None])) []
        \<lparr>unionsNameSet = [],
         created = genericTypes @
           [ObjectType ''Contentfulpage''
              [(''id'', \<lparr>dtype = ''ID!'', extensions = None\<rparr>),
               (''sys'', \<lparr>dtype = ''ContentfulInternalSys'', extensions = None\<rparr>),
               (''title'', \<lparr>dtype = ''String'', extensions = None\<rparr>)]
              [''ContentfulInternalReference'', ''ContentfulEntry'', ''Node'']
              (Some [(''dontInfer'', [])])]\<rparr>
      = (Inl (TypeError ''ContentfulDataTypes.get(...) is not a function''),
         \<lparr>unionsNameSet = [],
          created = genericTypes @
            [ObjectType ''Contentfulpage''
               [(''id'', \<lparr>dtype = ''ID!'', extensions = None\<rparr>),
                (''sys'', \<lparr>dtype = ''ContentfulInternalSys'', extensions = None\<rparr>),
                (''title'', \<lparr>dtype = ''String'', extensions = None\<rparr>)]
               [''ContentfulInternalReference'', ''ContentfulEntry'', ''Node'']
               (Some [(''dontInfer'', [])])]\<rparr>)
   \<and> generateSchema makeTypeName_sample False
     ([ContentTypeItem ''page'' (Some ''Page'')
        [Field (Some ''title'') ''Symbol'' False False False None None None]]
      @ ContentTypeItem ''map'' None
          [Field (Some ''pin'') ''Geo'' False False False None None None]
      # [ContentTypeItem ''post'' (Some ''Post'')
          [Field (Some ''body'') ''Text'' False False False None None None]])
     \<lparr>unionsNameSet = [], created = []\<rparr>
   = (Inl (TypeError (''Unable to create schema for Contentful Content Type map:''
              @ [CHR 0x0A] @ ''ContentfulDataTypes.get(...) is not a function'')),
      \<lparr>unionsNameSet = [],
       created = genericTypes @
         [ObjectType ''Contentfulpage''
            [(''id'', \<lparr>dtype = ''ID!'', extensions = None\<rparr>),
             (''sys'', \<lparr>dtype = ''ContentfulInternalSys'', extensions = None\<rparr>),
             (''title'', \<lparr>dtype = ''String'', extensions = None\<rparr>)]
            [''ContentfulInternalReference'', ''ContentfulEntry'', ''Node'']
            (Some [(''dontInfer'', [])])]\<rparr>)"
proof -
  have sym: "\<And>i s. translateFieldType makeTypeName_sample
        (Field i ''Symbol'' False False False None None None) s
      = (Inr \<lparr>dtype = ''String'', extensions = None\<rparr>, s)"
    by (simp add: translateFieldType_primitive ContentfulDataTypes_def mark_def)
  have geo: "\<And>i s. translateFieldType makeTypeName_sample
        (Field i ''Geo'' False False False None None None) s
      = (Inl (TypeError ''ContentfulDataTypes.get(...) is not a function''), s)"
    by (simp add: translateFieldType_primitive ContentfulDataTypes_def)
  have a: "generateSchema makeTypeName_sample False
     [ContentTypeItem ''page'' (Some ''Page'')
        [Field (Some ''title'') ''Symbol'' False False False None None None]]
     \<lparr>unionsNameSet = [], created = []\<rparr>
   = (Inr (),
      \<lparr>unionsNameSet = [],
       created = genericTypes @
         [ObjectType ''Contentfulpage''
            [(''id'', \<lparr>dtype = ''ID!'', extensions = None\<rparr>),
             (''sys'', \<lparr>dtype = ''ContentfulInternalSys'', extensions = None\<rparr>),
             (''title'', \<lparr>dtype = ''String'', extensions = None\<rparr>)]
            [''ContentfulInternalReference'', ''ContentfulEntry'', ''Node'']
            (Some [(''dontInfer'', [])])]\<rparr>)"
    by (simp add: generateSchema_def contentTypeSchema_def foldl_created sym
        spread_def assign_def createTypes_def makeTypeName_sample_def template_def)
  have b: "translateFields makeTypeName_sample
        (fields (ContentTypeItem ''map'' None
           [Field (Some ''pin'') ''Geo'' False False False None None None])) []
        \<lparr>unionsNameSet = [],
         created = genericTypes @
           [ObjectType ''Contentfulpage''
              [(''id'', \<lparr>dtype = ''ID!'', extensions = None\<rparr>),
               (''sys'', \<lparr>dtype = ''ContentfulInternalSys'', extensions = None\<rparr>),
               (''title'', \<lparr>dtype = ''String'', extensions = None\<rparr>)]
              [''ContentfulInternalReference'', ''ContentfulEntry'', ''Node'']
              (Some [(''dontInfer'', [])])]\<rparr>
      = (Inl (TypeError ''ContentfulDataTypes.get(...) is not a function''),
         \<lparr>unionsNameSet = [],
          created = genericTypes @
            [ObjectType ''Contentfulpage''
               [(''id'', \<lparr>dtype = ''ID!'', extensions = None\<rparr>),
                (''sys'', \<lparr>dtype = ''ContentfulInternalSys'', extensions = None\<rparr>),
                (''title'', \<lparr>dtype = ''String'', extensions = None\<rparr>)]
               [''ContentfulInternalReference'', ''ContentfulEntry'', ''Node'']
               (Some [(''dontInfer'', [])])]\<rparr>)"
    by (simp add: geo)
  show ?thesis
    using a b schema_error_aborts_batch [OF a b,
        of "[ContentTypeItem ''post'' (Some ''Post'')
          [Field (Some ''body'') ''Text'' False False False None None None]]"]
    by simp
qed

text \<open>
  C10, as amended. When two enabled fields \<open>f1\<close> and, later, \<open>f2\<close> of a content type
  have the same id, which is not \<^verbatim>\<open>__proto__\<close>, no enabled field after \<open>f2\<close> is stored
  under that id, and every enabled field of the content type has a translation, then
  the schema build raises nothing and the field map of the emitted object type has
  exactly one entry for that id, holding the translation of \<open>f2\<close>.
\<close>

theorem duplicate_field_id_last_wins:
  assumes "fields c = xs @ f1 # ys @ f2 # zs"
    and "enabled f1" and "enabled f2"
    and "fieldId f1 = fieldId f2"
    and "\<forall>f\<in>set zs. enabled f \<longrightarrow> template (fieldId f) \<noteq> template (fieldId f2)"
    and "\<forall>f\<in>set (fields c). enabled f \<longrightarrow> (\<exists>d. fst (translateFieldType mk f s0) = Inr d)"
    and "fst (translateFieldType mk f2 s) = Inr d2"
    and "template (fieldId f2) \<noteq> ''__proto__''"
  shows "\<exists>st' nm fm ifs ext.
           generateSchema mk u [c] st = (Inr (), st') \<and>
           last (created st') = ObjectType nm fm ifs ext \<and>
           filter (\<lambda>e. fst e = template (fieldId f2)) fm = [(template (fieldId f2), d2)]"
proof -
  define st0 where "st0 = foldl (\<lambda>s t. createTypes t s) st genericTypes"
  define k where "k = template (fieldId f2)"
  define pre where "pre = xs @ f1 # ys"
  have fs: "fields c = pre @ f2 # zs" using assms(1) by (simp add: pre_def)
  obtain fm st1 where all: "translateFields mk (fields c) [] st0 = (Inr fm, st1)"
    using translateFields_succeeds [OF assms(6)] by blast
  obtain a s1 where pre: "translateFields mk pre [] st0 = (Inr a, s1)"
    and rest: "translateFields mk (f2 # zs) a s1 = (Inr fm, st1)"
    using all unfolding fs translateFields_append
    by (auto split: prod.splits sum.splits)
  have "fst (translateFieldType mk f2 s1) = Inr d2"
    using assms(7) fst_translateFieldType [of mk f2 s1 s] by simp
  then obtain s2 where f2: "translateFieldType mk f2 s1 = (Inr d2, s2)"
    by (cases "translateFieldType mk f2 s1") auto
  have zs: "translateFields mk zs (AList.update k d2 a) s2 = (Inr fm, st1)"
    using rest f2 assms(3,8) by (simp add: enabled_def k_def assign_def)
  have "map_of fm k = map_of (AList.update k d2 a) k"
    using translateFields_other_key [OF zs] assms(5) by (simp add: k_def)
  then have m: "map_of fm k = Some d2" by (simp add: update_conv')
  have dist: "distinct (map fst fm)"
    using translateFields_distinct [OF all] by simp
  define base where "base = [(''id'', \<lparr>dtype = ''ID!'', extensions = None\<rparr>),
      (''sys'', \<lparr>dtype = ''ContentfulInternalSys'', extensions = None\<rparr>)]"
  have "distinct (map fst (spread base fm))"
    by (rule spread_distinct) (simp add: base_def)
  moreover have "map_of (spread base fm) k = Some d2"
    by (rule spread_map_of [OF dist m])
  ultimately have one: "filter (\<lambda>e. fst e = k) (spread base fm) = [(k, d2)]"
    by (rule single_entry)
  have "generateSchema mk u [c] st
        = (Inr (), createTypes (ObjectType (mk (if u then name c else Some (sys_id c)) None)
                     (spread base fm)
                     [''ContentfulInternalReference'', ''ContentfulEntry'', ''Node'']
                     (Some [(''dontInfer'', [])])) st1)"
    using all by (simp add: generateSchema_def contentTypeSchema_def st0_def base_def)
  then show ?thesis
    using one by (simp add: createTypes_def k_def)
qed

theorem duplicate_field_id_last_wins_witness:
  "fields (ContentTypeItem ''page'' (Some ''Page'')
      [Field (Some ''title'') ''Symbol'' False False False None None None,
       Field (Some ''slug'') ''Symbol'' False False False None None None,
       Field (Some ''title'') ''Integer'' True False False None None None])
     = [] @ Field (Some ''title'') ''Symbol'' False False False None None None
          # [Field (Some ''slug'') ''Symbol'' False False False None None None]
          @ Field (Some ''title'') ''Integer'' True False False None None None # []
   \<and> enabled (Field (Some ''title'') ''Symbol'' False False False None None None)
   \<and> enabled (Field (Some ''title'') ''Integer'' True False False None None None)
   \<and> fst (translateFieldType makeTypeName_sample
        (Field (Some ''title'') ''Integer'' True False False None None None)
        \<lparr>unionsNameSet = [], created = []\<rparr>)
      = Inr \<lparr>dtype = ''Int!'', extensions = None\<rparr>
   \<and> generateSchema makeTypeName_sample False
        [ContentTypeItem ''page'' (Some ''Page'')
          [Field (Some ''title'') ''Symbol'' False False False None None None,
           Field (Some ''slug'') ''Symbol'' False False False None None None,
           Field (Some ''title'') ''Integer'' True False False None None None]]
        \<lparr>unionsNameSet = [], created = []\<rparr>
      = (Inr (),
         \<lparr>unionsNameSet = [],
          created = genericTypes @
            [ObjectType ''Contentfulpage''
               [(''id'', \<lparr>dtype = ''ID!'', extensions = None\<rparr>),
                (''sys'', \<lparr>dtype = ''ContentfulInternalSys'', extensions = None\<rparr>),
                (''title'', \<lparr>dtype = ''Int!'', extensions = None\<rparr>),
                (''slug'', \<lparr>dtype = ''String'', extensions = None\<rparr>)]
               [''ContentfulInternalReference'', ''ContentfulEntry'', ''Node'']
               (Some [(''dontInfer'', [])])]\<rparr>)"
proof -
  have sym: "\<And>i s. translateFieldType makeTypeName_sample
        (Field i ''Symbol'' False False False None None None) s
      = (Inr \<lparr>dtype = ''String'', extensions = None\<rparr>, s)"
    by (simp add: translateFieldType_primitive ContentfulDataTypes_def mark_def)
  have int: "\<And>i s. translateFieldType makeTypeName_sample
        (Field i ''Integer'' True False False None None None) s
      = (Inr \<lparr>dtype = ''Int!'', extensions = None\<rparr>, s)"
    by (simp add: translateFieldType_primitive ContentfulDataTypes_def mark_def)
  have h1: "fields (ContentTypeItem ''page'' (Some ''Page'')
      [Field (Some ''title'') ''Symbol'' False False False None None None,
       Field (Some ''slug'') ''Symbol'' False False False None None None,
       Field (Some ''title'') ''Integer'' True False False None None None])
     = [] @ Field (Some ''title'') ''Symbol'' False False False None None None
          # [Field (Some ''slug'') ''Symbol'' False False False None None None]
          @ Field (Some ''title'') ''Integer'' True False False None None None # []"
    by simp
  have h2: "enabled (Field (Some ''title'') ''Symbol'' False False False None None None)"
    by (simp add: enabled_def)
  have h3: "enabled (Field (Some ''title'') ''Integer'' True False False None None None)"
    by (simp add: enabled_def)
  have h4: "fieldId (Field (Some ''title'') ''Symbol'' False False False None None None)
      = fieldId (Field (Some ''title'') ''Integer'' True False False None None None)"
    by simp
  have h5: "\<forall>f\<in>set []. enabled f \<longrightarrow> template (fieldId f)
      \<noteq> template (fieldId (Field (Some ''title'') ''Integer'' True False False None None None))"
    by simp
  have h6: "\<forall>f\<in>set (fields (ContentTypeItem ''page'' (Some ''Page'')
      [Field (Some ''title'') ''Symbol'' False False False None None None,
       Field (Some ''slug'') ''Symbol'' False False False None None None,
       Field (Some ''title'') ''Integer'' True False False None None None])).
      enabled f \<longrightarrow> (\<exists>d. fst (translateFieldType makeTypeName_sample f
          \<lparr>unionsNameSet = [], created = []\<rparr>) = Inr d)"
    by (simp add: sym int)
  have h7: "fst (translateFieldType makeTypeName_sample
        (Field (Some ''title'') ''Integer'' True False False None None None)
        \<lparr>unionsNameSet = [], created = []\<rparr>)
      = Inr \<lparr>dtype = ''Int!'', extensions = None\<rparr>"
    by (simp add: int)
  have h8: "template (fieldId (Field (Some ''title'') ''Integer'' True False False None None None))
      \<noteq> ''__proto__''"
    by (simp add: template_def)
  show ?thesis
    using h2 h3 h7
      duplicate_field_id_last_wins [OF h1 h2 h3 h4 h5 h6 h7 h8, of False "\<lparr>unionsNameSet = [], created = []\<rparr>"]
    by (simp add: generateSchema_def contentTypeSchema_def foldl_created sym int
        spread_def assign_def createTypes_def makeTypeName_sample_def template_def)
qed

text \<open>
  C10 as stated fails for the id \<^verbatim>\<open>__proto__\<close>: assigning to that property stores
  nothing, so with two enabled fields of that id the emitted field map has the entries
  \<open>id\<close> and \<open>sys\<close> only, and none for the id.
\<close>

theorem duplicate_proto_id_counterexample:
  "enabled (Field (Some ''__proto__'') ''Symbol'' False False False None None None)
   \<and> enabled (Field (Some ''__proto__'') ''Integer'' True False False None None None)
   \<and> generateSchema makeTypeName_sample False
        [ContentTypeItem ''page'' (Some ''Page'')
          [Field (Some ''__proto__'') ''Symbol'' False False False None None None,
           Field (Some ''__proto__'') ''Integer'' True False False None None None]]
        \<lparr>unionsNameSet = [], created = []\<rparr>
      = (Inr (),
         \<lparr>unionsNameSet = [],
          created = genericTypes @
            [ObjectType ''Contentfulpage''
               [(''id'', \<lparr>dtype = ''ID!'', extensions = None\<rparr>),
                (''sys'', \<lparr>dtype = ''ContentfulInternalSys'', extensions = None\<rparr>)]
               [''ContentfulInternalReference'', ''ContentfulEntry'', ''Node'']
               (Some [(''dontInfer'', [])])]\<rparr>)
   \<and> filter (\<lambda>e. fst e = ''__proto__'')
        [(''id'', \<lparr>dtype = ''ID!'', extensions = None\<rparr>),
         (''sys'', \<lparr>dtype = ''ContentfulInternalSys'', extensions = None\<rparr>)] = []"
proof -
  have sym: "\<And>i s. translateFieldType makeTypeName_sample
        (Field i ''Symbol'' False False False None None None) s
      = (Inr \<lparr>dtype = ''String'', extensions = None\<rparr>, s)"
    by (simp add: translateFieldType_primitive ContentfulDataTypes_def mark_def)
  have int: "\<And>i s. translateFieldType makeTypeName_sample
        (Field i ''Integer'' True False False None None None) s
      = (Inr \<lparr>dtype = ''Int!'', extensions = None\<rparr>, s)"
    by (simp add: translateFieldType_primitive ContentfulDataTypes_def mark_def)
  show ?thesis
    by (simp add: enabled_def generateSchema_def contentTypeSchema_def foldl_created sym int
        spread_def assign_def createTypes_def makeTypeName_sample_def template_def)
qed

end
